theory Spec2Isabelle
  imports Main "HOL-Library.Sublist"
begin

section \<open>Python strings\<close>

text \<open>
  A Python \<open>str\<close> is modelled as a HOL \<open>string\<close>. The character classes are those of
  ASCII text: \<open>str.lower\<close> maps \<open>A\<close>..\<open>Z\<close> to \<open>a\<close>..\<open>z\<close> and leaves every other
  character alone, and the whitespace of \<open>str.strip\<close>, \<open>str.split\<close> and the regular
  expression class \<open>\s\<close> is tab, line feed, vertical tab, form feed, carriage return, the
  four separators \<open>0x1c\<close>..\<open>0x1f\<close> and the space.
\<close>

definition is_upper :: "char \<Rightarrow> bool" where
  "is_upper c = (let n = (of_char c :: nat) in 65 \<le> n \<and> n \<le> 90)"

definition is_lower :: "char \<Rightarrow> bool" where
  "is_lower c = (let n = (of_char c :: nat) in 97 \<le> n \<and> n \<le> 122)"

definition is_digit :: "char \<Rightarrow> bool" where
  "is_digit c = (let n = (of_char c :: nat) in 48 \<le> n \<and> n \<le> 57)"

definition lower_chr :: "char \<Rightarrow> char" where
  "lower_chr c = (if is_upper c then char_of ((of_char c :: nat) + 32) else c)"

definition lower :: "string \<Rightarrow> string" where
  "lower s = map lower_chr s"

definition is_space :: "char \<Rightarrow> bool" where
  "is_space c =
     (let n = (of_char c :: nat) in (9 \<le> n \<and> n \<le> 13) \<or> (28 \<le> n \<and> n \<le> 32))"

text \<open>\<open>s.strip()\<close>: the whitespace at both ends is removed.\<close>

definition strip :: "string \<Rightarrow> string" where
  "strip s = rev (dropWhile is_space (rev (dropWhile is_space s)))"

text \<open>\<open>s.split(sep)\<close> for a one-character separator: empty pieces are kept.\<close>

fun py_split_on :: "char \<Rightarrow> string \<Rightarrow> string list" where
  "py_split_on sep [] = [[]]"
| "py_split_on sep (c # cs) =
     (if c = sep then [] # py_split_on sep cs
      else (case py_split_on sep cs of x # xs \<Rightarrow> (c # x) # xs | [] \<Rightarrow> [[c]]))"

text \<open>
  \<open>s.split()\<close>: the pieces between runs of whitespace, empty pieces dropped. The first
  argument of the loop is the current piece, reversed.
\<close>

fun split_ws :: "string \<Rightarrow> string \<Rightarrow> string list" where
  "split_ws w [] = (if w = [] then [] else [rev w])"
| "split_ws w (c # cs) =
     (if is_space c then (if w = [] then split_ws [] cs else rev w # split_ws [] cs)
      else split_ws (c # w) cs)"

definition py_split :: "string \<Rightarrow> string list" where
  "py_split s = split_ws [] s"

text \<open>\<open>sep.join(xs)\<close>.\<close>

fun join :: "string \<Rightarrow> string list \<Rightarrow> string" where
  "join sep [] = []"
| "join sep [x] = x"
| "join sep (x # y # ys) = x @ sep @ join sep (y # ys)"

text \<open>\<open>posixpath.join\<close> of two components and \<open>posixpath.basename\<close>.\<close>

definition os_path_join :: "string \<Rightarrow> string \<Rightarrow> string" where
  "os_path_join a b =
     (if prefix ''/'' b then b
      else if a = [] \<or> suffix ''/'' a then a @ b
      else a @ ''/'' @ b)"

definition basename :: "string \<Rightarrow> string" where
  "basename p = rev (takeWhile (\<lambda>c. c \<noteq> CHR ''/'') (rev p))"

text \<open>\<open>p in t\<close> on strings: \<open>p\<close> occurs in \<open>t\<close> as a contiguous piece.\<close>

fun py_in :: "string \<Rightarrow> string \<Rightarrow> bool" where
  "py_in p [] = (p = [])"
| "py_in p (c # cs) = (prefix p (c # cs) \<or> py_in p cs)"

section \<open>Regular expressions\<close>

text \<open>
  The fragment of Python's \<open>re\<close> that the patterns of the source use. A position in the
  subject is the character before it, if any, and the text from it on. \<open>rx_match r st\<close>
  lists the positions where a match of \<open>r\<close> begun at \<open>st\<close> can end, in the order in which
  the backtracking matcher of \<open>re\<close> tries them: a greedy repetition first takes all it can,
  an alternation tries its left branch first. The head of the list is the match that
  \<open>re\<close> reports.
\<close>

datatype rx =
    Eps
  | Cls "char \<Rightarrow> bool"
  | Rep nat "nat option" "char \<Rightarrow> bool"
  | WordB
  | Opt rx
  | Alt rx rx
  | Seq rx rx

type_synonym pos = "char option \<times> string"

definition is_word :: "char \<Rightarrow> bool" where
  "is_word c = (is_upper c \<or> is_lower c \<or> is_digit c \<or> c = CHR ''_'')"

text \<open>\<open>\b\<close>: exactly one of the two neighbours of the position is a word character.\<close>

definition at_boundary :: "char option \<Rightarrow> string \<Rightarrow> bool" where
  "at_boundary p s =
     ((case p of Some c \<Rightarrow> is_word c | None \<Rightarrow> False)
        \<noteq> (case s of c # _ \<Rightarrow> is_word c | [] \<Rightarrow> False))"

text \<open>
  \<open>Rep m mx P\<close> is the greedy repetition \<open>{m,mx}\<close> of a character class (\<open>mx = None\<close>: no
  upper limit), so \<open>*\<close> is \<open>Rep 0 None\<close> and \<open>+\<close> is \<open>Rep 1 None\<close>.
\<close>

fun rep_match :: "(char \<Rightarrow> bool) \<Rightarrow> nat \<Rightarrow> nat option \<Rightarrow> char option \<Rightarrow> string \<Rightarrow> pos list" where
  "rep_match P m mx p [] = (if m = 0 then [(p, [])] else [])"
| "rep_match P m mx p (c # cs) =
     (if P c \<and> mx \<noteq> Some 0
      then rep_match P (m - 1) (map_option (\<lambda>n. n - 1) mx) (Some c) cs else [])
     @ (if m = 0 then [(p, c # cs)] else [])"

fun rx_match :: "rx \<Rightarrow> pos \<Rightarrow> pos list" where
  "rx_match Eps st = [st]"
| "rx_match (Cls P) (p, s) =
     (case s of c # cs \<Rightarrow> if P c then [(Some c, cs)] else [] | [] \<Rightarrow> [])"
| "rx_match (Rep m mx P) (p, s) = rep_match P m mx p s"
| "rx_match WordB (p, s) = (if at_boundary p s then [(p, s)] else [])"
| "rx_match (Opt a) st = rx_match a st @ [st]"
| "rx_match (Alt a b) st = rx_match a st @ rx_match b st"
| "rx_match (Seq a b) st = concat (map (rx_match b) (rx_match a st))"

text \<open>
  \<open>re.search(r, text)\<close>: the match at the leftmost position that has one; the result is
  \<open>group(0)\<close>, the text matched, or \<open>None\<close>.
\<close>

fun re_search_from :: "rx \<Rightarrow> char option \<Rightarrow> string \<Rightarrow> string option" where
  "re_search_from r p [] = (case rx_match r (p, []) of [] \<Rightarrow> None | _ # _ \<Rightarrow> Some [])"
| "re_search_from r p (c # cs) =
     (case rx_match r (p, c # cs) of
        [] \<Rightarrow> re_search_from r (Some c) cs
      | (q, s') # _ \<Rightarrow> Some (take (Suc (length cs) - length s') (c # cs)))"

definition re_search :: "rx \<Rightarrow> string \<Rightarrow> string option" where
  "re_search r text = re_search_from r None text"

text \<open>A literal word under \<open>re.IGNORECASE\<close>.\<close>

fun Lit_ci :: "string \<Rightarrow> rx" where
  "Lit_ci [] = Eps"
| "Lit_ci (h # w) = Seq (Cls (\<lambda>c. lower_chr c = lower_chr h)) (Lit_ci w)"

section \<open>Data model\<close>

text \<open>The dictionary \<open>resume_data\<close> that \<open>process_resume\<close> builds, one per document.\<close>

record resume =
  name :: string
  email :: string
  phone :: string
  experience :: string
  skills :: string
  keyword_count :: int
  found_keywords :: string
  is_relevant :: bool
  file_name :: string

text \<open>
  A cell of a survey column: missing (pandas \<open>NaN\<close>, for which \<open>pd.notna\<close> is false) or
  present, and then \<open>Str s\<close> where \<open>s\<close> is the text \<open>str\<close> returns for the cell.
\<close>

datatype cell = NaN | Str string

text \<open>
  A row of \<open>merged_df\<close>. A survey field is \<open>None\<close> when the row has no column of that
  name (\<open>"availability" in row\<close> is false), and \<open>Some\<close> of the cell otherwise.
\<close>

record joined_row = resume +
  availability :: "cell option"
  courses :: "cell option"
  visa :: "cell option"

record classified_row = joined_row +
  priority_score :: int
  priority :: string

section \<open>Keywords: \<open>load_keywords\<close> and \<open>count_relevant_keywords\<close>\<close>

text \<open>
  \<open>load_keywords\<close> reads the keywords file; the argument is the lines of the file, or
  \<open>None\<close> when opening it raises \<open>FileNotFoundError\<close>.
\<close>

definition default_keywords :: "string list" where
  "default_keywords =
     [''attendant'', ''cook'', ''fast food'', ''mcdonald's'', ''burger king'',
      ''customer service'', ''food handling'', ''cashier'', ''restaurant'']"

definition load_keywords :: "string list option \<Rightarrow> string list" where
  "load_keywords f =
     (case f of
        Some lines \<Rightarrow> map (\<lambda>line. lower (strip line)) (filter (\<lambda>line. strip line \<noteq> []) lines)
      | None \<Rightarrow> default_keywords)"

text \<open>The loop of \<open>count_relevant_keywords\<close>, on the state \<open>(count, found_keywords)\<close>.\<close>

fun count_loop :: "string \<Rightarrow> string list \<Rightarrow> int \<times> string list \<Rightarrow> int \<times> string list" where
  "count_loop text_lower [] st = st"
| "count_loop text_lower (keyword # rest) (count, found) =
     (if py_in (lower keyword) text_lower
      then count_loop text_lower rest (count + 1, found @ [keyword])
      else count_loop text_lower rest (count, found))"

definition count_relevant_keywords :: "string \<Rightarrow> string list \<Rightarrow> int \<times> string list" where
  "count_relevant_keywords text keywords = count_loop (lower text) keywords (0, [])"

section \<open>Contact details: \<open>extract_contact_info\<close>\<close>

definition email_local_chr :: "char \<Rightarrow> bool" where
  "email_local_chr c = (is_upper c \<or> is_lower c \<or> is_digit c \<or> c \<in> set ''._%+-'')"

definition email_domain_chr :: "char \<Rightarrow> bool" where
  "email_domain_chr c = (is_upper c \<or> is_lower c \<or> is_digit c \<or> c \<in> set ''.-'')"

text \<open>The class \<open>[A-Z|a-z]\<close> of the source holds the bar as well as the letters.\<close>

definition tld_chr :: "char \<Rightarrow> bool" where
  "tld_chr c = (is_upper c \<or> c = CHR ''|'' \<or> is_lower c)"

definition phone_sep_chr :: "char \<Rightarrow> bool" where
  "phone_sep_chr c = (c = CHR ''-'' \<or> c = CHR ''.'' \<or> is_space c)"

definition email_pattern :: rx where
  "email_pattern =
     Seq WordB (Seq (Rep 1 None email_local_chr) (Seq (Cls (\<lambda>c. c = CHR ''@''))
       (Seq (Rep 1 None email_domain_chr) (Seq (Cls (\<lambda>c. c = CHR ''.''))
         (Seq (Rep 2 None tld_chr) WordB)))))"

definition phone_pattern :: rx where
  "phone_pattern =
     Seq WordB
       (Seq (Opt (Seq (Cls (\<lambda>c. c = CHR ''+''))
                   (Seq (Rep 1 (Some 3) is_digit) (Opt (Cls phone_sep_chr)))))
       (Seq (Opt (Cls (\<lambda>c. c = CHR ''(''))) (Seq (Rep 3 (Some 3) is_digit)
       (Seq (Opt (Cls (\<lambda>c. c = CHR '')''))) (Seq (Opt (Cls phone_sep_chr))
       (Seq (Rep 3 (Some 3) is_digit) (Seq (Opt (Cls phone_sep_chr))
       (Seq (Rep 4 (Some 4) is_digit) WordB))))))))"

text \<open>The loop over \<open>lines[:5]\<close> that looks for the name; it stops at the first hit.\<close>

fun find_name :: "string list \<Rightarrow> string" where
  "find_name [] = []"
| "find_name (line # rest) =
     (if strip line \<noteq> [] \<and> re_search email_pattern line = None
         \<and> re_search phone_pattern line = None
      then join '' '' (take 3 (py_split (strip line)))
      else find_name rest)"

definition extract_contact_info :: "string \<Rightarrow> string \<times> string \<times> string" where
  "extract_contact_info text =
     (let em = (case re_search email_pattern text of Some m \<Rightarrow> m | None \<Rightarrow> []);
          ph = (case re_search phone_pattern text of Some m \<Rightarrow> m | None \<Rightarrow> []);
          lines = py_split_on (CHR 0x0A) (strip text);
          nm = find_name (take 5 lines)
      in (nm, em, ph))"

section \<open>Sections: \<open>extract_experience_and_skills\<close>\<close>

text \<open>
  \<open>re.split(r, text)\<close> for a pattern without groups: the pieces of the text between the
  successive leftmost matches. The third argument is the current piece, reversed. Every
  match of the pattern used here takes at least its line feed; a position where the
  pattern could only match the empty text is passed over.
\<close>

function re_split_from :: "rx \<Rightarrow> char option \<Rightarrow> string \<Rightarrow> string \<Rightarrow> string list" where
  "re_split_from r p acc [] = [rev acc]"
| "re_split_from r p acc (c # cs) =
     (case rx_match r (p, c # cs) of
        [] \<Rightarrow> re_split_from r (Some c) (c # acc) cs
      | (q, s') # _ \<Rightarrow>
          if length s' < Suc (length cs) then rev acc # re_split_from r q [] s'
          else re_split_from r (Some c) (c # acc) cs)"
  by pat_completeness auto
termination
  by (relation "measure (\<lambda>(r, p, acc, s). length s)") auto

definition re_split :: "rx \<Rightarrow> string \<Rightarrow> string list" where
  "re_split r text = re_split_from r None [] text"

definition header_names :: rx where
  "header_names =
     Alt (Lit_ci ''EXPERIENCE'') (Alt (Lit_ci ''SKILLS'') (Alt (Lit_ci ''EDUCATION'')
       (Alt (Lit_ci ''WORK HISTORY'') (Alt (Lit_ci ''EMPLOYMENT'')
         (Lit_ci ''PROFESSIONAL EXPERIENCE'')))))"

definition header_pattern :: rx where
  "header_pattern =
     Seq (Cls (\<lambda>c. c = CHR 0x0A)) (Seq (Rep 0 None is_space)
       (Seq header_names (Alt (Rep 0 None is_space) (Cls (\<lambda>c. c = CHR '':'')))))"

definition skills_pattern :: rx where
  "skills_pattern = Alt (Lit_ci ''SKILLS'') (Lit_ci ''QUALIFICATIONS'')"

text \<open>
  In the words of the specification: a segment contains the token \<open>SKILLS\<close> or
  \<open>QUALIFICATIONS\<close>, whatever the case of the letters. The search with \<open>skills_pattern\<close>
  is compared with it below.
\<close>

definition contains_token :: "string \<Rightarrow> bool" where
  "contains_token seg =
     (sublist (lower ''SKILLS'') (lower seg) \<or> sublist (lower ''QUALIFICATIONS'') (lower seg))"

text \<open>
  The loop over \<open>enumerate(sections)\<close>: it looks at each section together with the one
  before it and stops at the first section whose predecessor matches.
\<close>

fun skills_loop :: "string list \<Rightarrow> string" where
  "skills_loop (prev # section # rest) =
     (if re_search skills_pattern prev \<noteq> None then take 500 (strip section)
      else skills_loop (section # rest))"
| "skills_loop _ = []"

definition extract_experience_and_skills :: "string \<Rightarrow> string list \<Rightarrow> string \<times> string" where
  "extract_experience_and_skills text keywords =
     (let sections = re_split header_pattern text;
          experience = (if length sections > 1 then take 500 (strip (sections ! 1)) else []);
          skills_section = skills_loop sections;
          skills_section =
            (if skills_section = [] \<and> length sections > 2
             then take 500 (strip (last sections)) else skills_section)
      in (experience, skills_section))"

section \<open>Records: \<open>process_resume\<close> and \<open>monitor_input_folder\<close>\<close>

text \<open>
  \<open>extract_text_from_pdf\<close> reads the document through PyMuPDF and returns the empty string
  when that raises; it is a parameter here, a function from the path to the text.
\<close>

definition process_resume :: "(string \<Rightarrow> string) \<Rightarrow> string \<Rightarrow> string list \<Rightarrow> resume option" where
  "process_resume extract_text_from_pdf pdf_path keywords =
     (let text = extract_text_from_pdf pdf_path in
      if text = [] then None
      else
        (let (nm, em, ph) = extract_contact_info text;
             (ex, sk) = extract_experience_and_skills text keywords;
             (kc, found) = count_relevant_keywords text keywords;
             rel = (kc \<ge> 2)
         in Some \<lparr>name = nm, email = em, phone = ph, experience = ex, skills = sk,
                  keyword_count = kc, found_keywords = join '', '' found,
                  is_relevant = rel, file_name = basename pdf_path\<rparr>))"

definition INPUT_DIR :: string where
  "INPUT_DIR = ''./input_cv/''"

text \<open>
  The loop of \<open>monitor_input_folder\<close> over the PDF files, on the list \<open>resume_data\<close>. The
  move of a processed file to the processed directory changes nothing that the function
  returns (a failed move is logged) and is left out.
\<close>

fun monitor_loop :: "(string \<Rightarrow> string) \<Rightarrow> string list \<Rightarrow> string list \<Rightarrow> resume list \<Rightarrow> resume list" where
  "monitor_loop extract_text_from_pdf keywords [] resume_data = resume_data"
| "monitor_loop extract_text_from_pdf keywords (pdf_file # rest) resume_data =
     (case process_resume extract_text_from_pdf (os_path_join INPUT_DIR pdf_file) keywords of
        Some data \<Rightarrow> monitor_loop extract_text_from_pdf keywords rest (resume_data @ [data])
      | None \<Rightarrow> monitor_loop extract_text_from_pdf keywords rest resume_data)"

text \<open>The second argument is \<open>os.listdir(INPUT_DIR)\<close>.\<close>

definition monitor_input_folder :: "(string \<Rightarrow> string) \<Rightarrow> string list \<Rightarrow> string list \<Rightarrow> resume list" where
  "monitor_input_folder extract_text_from_pdf listing keywords =
     (let pdf_files = filter (\<lambda>f. suffix ''.pdf'' (lower f)) listing in
      if pdf_files = [] then []
      else monitor_loop extract_text_from_pdf keywords pdf_files [])"

section \<open>Scoring: \<open>calculate_priority\<close> and \<open>get_priority_level\<close>\<close>

text \<open>
  \<open>calculate_priority\<close> adds to \<open>score\<close> in five consecutive blocks; each block is one
  function here, and the score is their sum, in the order of the source.
\<close>

definition relevance_points :: "bool \<Rightarrow> int" where
  "relevance_points rel = (if rel then 2 else 0)"

definition keyword_points :: "int \<Rightarrow> int" where
  "keyword_points kc = min kc 5"

definition availability_points :: "cell option \<Rightarrow> int" where
  "availability_points v =
     (case v of
        Some (Str s) \<Rightarrow>
          (let availability = lower s in
           if availability = ''full availability'' then 4
           else if availability = ''morning'' then 3
           else if availability = ''night'' then 1
           else 1)
      | _ \<Rightarrow> 0)"

definition courses_points :: "cell option \<Rightarrow> int" where
  "courses_points v =
     (case v of
        Some (Str s) \<Rightarrow>
          (let courses = lower s in
           if py_in ''food handling'' courses \<or> py_in ''haccp'' courses then 3
           else if py_in ''food safety'' courses then 2
           else if py_in ''customer service'' courses then 2
           else if courses \<noteq> ''none'' \<and> courses \<noteq> ''unknown'' then 1
           else 0)
      | _ \<Rightarrow> 0)"

definition visa_points :: "cell option \<Rightarrow> int" where
  "visa_points v =
     (case v of
        Some (Str s) \<Rightarrow>
          (let visa_status = lower s in
           if visa_status = ''stamp 4'' then 3
           else if visa_status = ''stamp 2'' then 1
           else if visa_status = ''irish'' then 4
           else if visa_status = ''ue'' then 3
           else if visa_status = ''stamp 1g'' then 2
           else if visa_status = ''stamp 1'' then 0
           else 0)
      | _ \<Rightarrow> 0)"

definition calculate_priority :: "'a joined_row_scheme \<Rightarrow> int" where
  "calculate_priority row =
     relevance_points (is_relevant row) + keyword_points (keyword_count row)
       + availability_points (availability row)
       + courses_points (courses row)
       + visa_points (visa row)"

definition get_priority_level :: "int \<Rightarrow> string" where
  "get_priority_level score =
     (if score \<ge> 10 then ''High'' else if score \<ge> 6 then ''Medium'' else ''Low'')"

section \<open>Joining and classifying: \<open>classify_candidates\<close>\<close>

text \<open>
  A data frame is the list of its rows; \<open>resumes_df\<close> is the list of the records, and
  \<open>main\<close> passes at least one. The survey data frame is its rows together with which
  of the three survey columns it has. Its column \<open>email\<close> is the key of the join and is
  always there, each of its cells a text or missing; the cell of a column that the frame
  does not have is not looked at.
\<close>

record survey_row =
  s_email :: cell
  s_availability :: cell
  s_courses :: cell
  s_visa :: cell

record survey_df =
  has_availability :: bool
  has_courses :: bool
  has_visa :: bool
  survey_rows :: "survey_row list"

definition column :: "bool \<Rightarrow> cell \<Rightarrow> cell option" where
  "column has v = (if has then Some v else None)"

definition join_row :: "resume \<Rightarrow> cell option \<Rightarrow> cell option \<Rightarrow> cell option \<Rightarrow> joined_row" where
  "join_row r a c v = resume.extend r (joined_row.fields a c v)"

text \<open>
  The rows of the left join on \<open>email\<close>: the rows of the left frame in their order, each
  once for every survey row with the same email, in the order of the survey; a row without
  a partner is kept once, its survey cells missing. The email of a record is a text, so a
  survey row whose email cell is missing is the partner of no record.
\<close>

definition matches :: "survey_df \<Rightarrow> resume \<Rightarrow> survey_row list" where
  "matches sv r = filter (\<lambda>s. s_email s = Str (email r)) (survey_rows sv)"

definition left_join :: "resume list \<Rightarrow> survey_df \<Rightarrow> joined_row list" where
  "left_join resumes_df sv =
     concat (map (\<lambda>r.
       (let ms = matches sv r in
        if ms = []
        then [join_row r (column (has_availability sv) NaN) (column (has_courses sv) NaN)
                (column (has_visa sv) NaN)]
        else map (\<lambda>s. join_row r (column (has_availability sv) (s_availability s))
                (column (has_courses sv) (s_courses s)) (column (has_visa sv) (s_visa s))) ms))
       resumes_df)"

text \<open>
  \<open>pd.merge(resumes_df, survey_df, on="email", how="left")\<close>. When both frames have rows,
  pandas first compares the types of the two key columns. The email column of the records
  holds text; a survey email column with no text in it, every cell missing, is a column of
  floats, and the merge raises \<open>ValueError\<close>. Nothing in \<open>classify_candidates\<close> or in
  \<open>main\<close> catches it. In every other case the result is the rows of the left join.
\<close>

datatype error = ValueError

definition merge_left :: "resume list \<Rightarrow> survey_df \<Rightarrow> error + joined_row list" where
  "merge_left resumes_df sv =
     (if resumes_df \<noteq> [] \<and> survey_rows sv \<noteq> []
         \<and> list_all (\<lambda>s. s_email s = NaN) (survey_rows sv)
      then Inl ValueError
      else Inr (left_join resumes_df sv))"

text \<open>The other branch: the three survey columns are filled with \<open>Unknown\<close>.\<close>

definition unknown_rows :: "resume list \<Rightarrow> joined_row list" where
  "unknown_rows resumes_df =
     map (\<lambda>r. join_row r (Some (Str ''Unknown'')) (Some (Str ''Unknown''))
            (Some (Str ''Unknown''))) resumes_df"

definition classify_row :: "joined_row \<Rightarrow> classified_row" where
  "classify_row row =
     (let score = calculate_priority row in
      joined_row.extend row (classified_row.fields score (get_priority_level score)))"

text \<open>
  The survey argument is \<open>None\<close> when \<open>survey_df\<close> is \<open>None\<close>. The result is \<open>Inl\<close> of the
  exception that leaves the function, or \<open>Inr\<close> of the rows of the frame it returns.
\<close>

definition classify_candidates :: "resume list \<Rightarrow> survey_df option \<Rightarrow> error + classified_row list" where
  "classify_candidates resumes_df survey_df =
     (case (case survey_df of
              Some sv \<Rightarrow>
                if survey_rows sv \<noteq> [] then merge_left resumes_df sv
                else Inr (unknown_rows resumes_df)
            | None \<Rightarrow> Inr (unknown_rows resumes_df)) of
        Inl e \<Rightarrow> Inl e
      | Inr merged_df \<Rightarrow> Inr (map classify_row merged_df))"

section \<open>Sample inputs\<close>

definition sample_resume :: resume where
  "sample_resume =
     \<lparr>name = ''Ann Lee'', email = ''a@x.com'', phone = [], experience = [], skills = [],
      keyword_count = 3, found_keywords = ''cook, cashier, restaurant'',
      is_relevant = True, file_name = ''a.pdf''\<rparr>"

text \<open>A survey with all three columns and one row, of another candidate.\<close>

definition other_survey :: survey_df where
  "other_survey =
     \<lparr>has_availability = True, has_courses = True, has_visa = True,
      survey_rows = [\<lparr>s_email = Str ''b@x.com'', s_availability = Str ''morning'',
                       s_courses = Str ''HACCP'', s_visa = Str ''irish''\<rparr>]\<rparr>"

text \<open>
  A survey in which the sample record has two rows of its own, after a row of another
  candidate and a row without an email.
\<close>

definition own_survey :: survey_df where
  "own_survey =
     \<lparr>has_availability = True, has_courses = True, has_visa = True,
      survey_rows =
        [\<lparr>s_email = Str ''b@x.com'', s_availability = Str ''morning'',
           s_courses = Str ''HACCP'', s_visa = Str ''irish''\<rparr>,
         \<lparr>s_email = Str ''a@x.com'', s_availability = Str ''full availability'',
           s_courses = Str ''HACCP certified'', s_visa = Str ''irish''\<rparr>,
         \<lparr>s_email = NaN, s_availability = Str ''morning'',
           s_courses = NaN, s_visa = NaN\<rparr>,
         \<lparr>s_email = Str ''a@x.com'', s_availability = Str ''night'',
           s_courses = Str ''none'', s_visa = Str ''stamp 2''\<rparr>]\<rparr>"

text \<open>A survey whose email column holds no text.\<close>

definition blank_key_survey :: survey_df where
  "blank_key_survey =
     \<lparr>has_availability = True, has_courses = True, has_visa = True,
      survey_rows = [\<lparr>s_email = NaN, s_availability = Str ''morning'',
                       s_courses = Str ''HACCP'', s_visa = Str ''irish''\<rparr>]\<rparr>"

text \<open>A joined row with the best value in every group of the table.\<close>

definition best_row :: joined_row where
  "best_row =
     \<lparr>name = ''Ann Lee'', email = ''a@x.com'', phone = [], experience = [], skills = [],
      keyword_count = 9, found_keywords = [], is_relevant = True, file_name = ''a.pdf'',
      availability = Some (Str ''Full Availability''),
      courses = Some (Str ''HACCP certified''), visa = Some (Str ''Irish'')\<rparr>"

section \<open>Evaluating characters\<close>

text \<open>
  On a character given by its bits, \<open>lower_chr\<close> sets bit 5 of an upper-case letter, which
  adds 32 to its code.
\<close>

lemma lower_chr_Char:
  "lower_chr (Char b0 b1 b2 b3 b4 b5 b6 b7) =
     (if is_upper (Char b0 b1 b2 b3 b4 b5 b6 b7) then Char b0 b1 b2 b3 b4 True b6 b7
      else Char b0 b1 b2 b3 b4 b5 b6 b7)"
  by (cases b0; cases b1; cases b2; cases b3; cases b4; cases b5; cases b6; cases b7;
      simp add: lower_chr_def is_upper_def char_of_def bit_Suc_0_iff)

lemmas eval_chr = lower_chr_Char is_upper_def is_lower_def is_digit_def is_space_def lower_def

section \<open>Whitespace and case\<close>

lemma is_space_not_word: "is_space c \<Longrightarrow> \<not> is_word c"
  by (cases c) (auto simp add: is_space_def is_word_def is_upper_def is_lower_def is_digit_def Let_def)

lemma is_space_not_upper: "is_space c \<Longrightarrow> \<not> is_upper c"
  by (auto simp add: is_space_def is_upper_def Let_def)

lemma lower_chr_space: "is_space c \<Longrightarrow> lower_chr c = c"
  by (simp add: lower_chr_def is_space_not_upper)

lemma is_space_lower_chr: "is_space (lower_chr c) = is_space c"
  by (auto simp add: lower_chr_def is_space_def is_upper_def Let_def)

lemma lower_spaces: "\<forall>c \<in> set s. is_space c \<Longrightarrow> lower s = s"
  by (simp add: lower_def lower_chr_space map_idI)

lemma strip_spaces:
  assumes "\<forall>c \<in> set s. is_space c"
  shows "strip s = []"
proof -
  have h: "dropWhile is_space s = []" using assms by (induction s) simp_all
  show ?thesis by (simp only: strip_def h rev.simps dropWhile.simps)
qed

lemma strip_nonempty_has_nonspace:
  assumes "strip s \<noteq> []"
  shows "\<exists>c \<in> set (strip s). \<not> is_space c"
proof -
  let ?d = "dropWhile is_space (rev (dropWhile is_space s))"
  have "?d \<noteq> []" using assms by (simp add: strip_def)
  then have "\<not> is_space (hd ?d)" by (rule hd_dropWhile)
  moreover have "hd ?d \<in> set (strip s)"
    using \<open>?d \<noteq> []\<close> by (simp add: strip_def)
  ultimately show ?thesis by blast
qed

section \<open>Where a match can end\<close>

lemma rep_match_suffix:
  "(q, s') \<in> set (rep_match P m mx p s) \<Longrightarrow> suffix s' s"
proof (induction s arbitrary: m mx p)
  case Nil
  then show ?case by (simp split: if_splits)
next
  case (Cons c cs)
  then show ?case
    by (auto split: if_splits simp add: suffix_Cons)
qed

lemma rx_match_suffix:
  "(q, s') \<in> set (rx_match r (p, s)) \<Longrightarrow> suffix s' s"
proof (induction r arbitrary: p s q s')
  case (Cls P)
  then show ?case by (auto split: list.splits if_splits simp add: suffix_Cons)
next
  case (Rep m mx P)
  then show ?case by (auto dest: rep_match_suffix)
next
  case (Seq a b)
  then show ?case by (fastforce intro: suffix_order.trans)
qed (auto split: if_splits)


lemma seq_no_match:
  assumes "\<And>q s'. (q, s') \<in> set (rx_match a st) \<Longrightarrow> rx_match b (q, s') = []"
  shows "rx_match (Seq a b) st = []"
  using assms by auto

lemma rx_match_Seq_elim:
  assumes "(q, s') \<in> set (rx_match (Seq a b) st)"
  obtains q1 s1 where "(q1, s1) \<in> set (rx_match a st)" "(q, s') \<in> set (rx_match b (q1, s1))"
  using assms by auto

text \<open>
  A match of \<open>header_pattern\<close> takes at least the line feed, so \<open>re_split_from\<close> never
  meets an empty match of it.
\<close>

lemma header_pattern_consumes:
  assumes "(q, s') \<in> set (rx_match header_pattern (p, c # cs))"
  shows "length s' < Suc (length cs)"
proof -
  from assms obtain q1 s1
    where 1: "(q1, s1) \<in> set (rx_match (Cls (\<lambda>c. c = CHR 0x0A)) (p, c # cs))"
    and 2: "(q, s') \<in> set (rx_match (Seq (Rep 0 None is_space)
       (Seq header_names (Alt (Rep 0 None is_space) (Cls (\<lambda>c. c = CHR '':''))))) (q1, s1))"
    unfolding header_pattern_def by (rule rx_match_Seq_elim)
  from 1 have "s1 = cs" by (simp split: if_splits)
  moreover from 2 have "suffix s' s1" by (rule rx_match_suffix)
  ultimately show ?thesis by (auto dest: suffix_length_le)
qed

section \<open>The score and the tier\<close>

lemma availability_points_range: "0 \<le> availability_points v \<and> availability_points v \<le> 4"
  by (simp add: availability_points_def Let_def split: option.split cell.split)

lemma courses_points_range: "0 \<le> courses_points v \<and> courses_points v \<le> 3"
  by (simp add: courses_points_def Let_def split: option.split cell.split)

lemma visa_points_range: "0 \<le> visa_points v \<and> visa_points v \<le> 4"
  by (simp add: visa_points_def Let_def split: option.split cell.split)

text \<open>
  The rows of the availability table that the code follows: a cell that is present scores
  4 for \<open>full availability\<close>, 3 for \<open>morning\<close> and 1 for everything else, whatever the
  case of its letters; a missing cell and a missing column score 0.
\<close>

lemma availability_points_present:
  "availability_points (Some (Str s)) =
     (if lower s = ''full availability'' then 4 else if lower s = ''morning'' then 3 else 1)"
  by (simp add: availability_points_def)

lemma availability_points_missing:
  "availability_points (Some NaN) = 0 \<and> availability_points None = 0"
  by (simp add: availability_points_def)

text \<open>
  C1, at the input where the code leaves the table: the availability field \<open>Unknown\<close>, the
  sentinel that \<open>classify_candidates\<close> writes when there is no survey, is lowered to
  \<open>unknown\<close> and falls into the last branch, so it adds 1 to the score of every row and
  not 0. The neighbouring blocks do give it 0: the courses block names \<open>unknown\<close>, the visa
  block has no default branch.
\<close>

theorem availability_unknown_scores_one:
  "availability_points (Some (Str ''Unknown'')) = 1
   \<and> courses_points (Some (Str ''Unknown'')) = 0
   \<and> visa_points (Some (Str ''Unknown'')) = 0
   \<and> calculate_priority (row\<lparr>availability := Some (Str ''Unknown'')\<rparr>)
       = calculate_priority (row\<lparr>availability := Some NaN\<rparr>) + 1"
  by (simp add: calculate_priority_def availability_points_def courses_points_def
      visa_points_def eval_chr)

text \<open>
  C2, as the code computes it: with no survey data frame at all, a relevant resume with
  \<open>keyword_count = 3\<close> gets \<open>priority_score = 2 + 3 + 1 + 0 + 0 = 6\<close> and the tier
  \<open>Medium\<close>, not 5 and \<open>Low\<close>; the extra point is the one of the availability field
  \<open>Unknown\<close>.
\<close>

theorem no_survey_relevant_three_keywords:
  assumes "is_relevant r" and "keyword_count r = 3"
  shows "\<exists>rows. classify_candidates [r] None = Inr rows
           \<and> map priority_score rows = [6] \<and> map priority rows = [''Medium'']"
  using assms
  by (simp add: classify_candidates_def unknown_rows_def classify_row_def join_row_def
      resume.defs joined_row.defs classified_row.defs calculate_priority_def
      relevance_points_def keyword_points_def availability_points_def courses_points_def
      visa_points_def get_priority_level_def eval_chr)

theorem no_survey_relevant_three_keywords_witness:
  "is_relevant sample_resume \<and> keyword_count sample_resume = 3
   \<and> (\<exists>rows. classify_candidates [sample_resume] None = Inr rows
         \<and> map priority_score rows = [6] \<and> map priority rows = [''Medium''])"
proof -
  have h: "is_relevant sample_resume" "keyword_count sample_resume = 3"
    by (simp_all add: sample_resume_def)
  show ?thesis
    using h no_survey_relevant_three_keywords [OF h] by simp
qed

text \<open>
  C4: \<open>get_priority_level\<close> gives every score exactly one tier: \<open>High\<close> exactly from 10
  up, \<open>Medium\<close> exactly from 6 to 9, \<open>Low\<close> exactly below 6; so 10 is \<open>High\<close>, 9 and 6 are
  \<open>Medium\<close> and 5 is \<open>Low\<close>.
\<close>

theorem get_priority_level_thresholds:
  "(get_priority_level score = ''High'' \<longleftrightarrow> 10 \<le> score)
   \<and> (get_priority_level score = ''Medium'' \<longleftrightarrow> 6 \<le> score \<and> score < 10)
   \<and> (get_priority_level score = ''Low'' \<longleftrightarrow> score < 6)
   \<and> get_priority_level 10 = ''High'' \<and> get_priority_level 9 = ''Medium''
   \<and> get_priority_level 6 = ''Medium'' \<and> get_priority_level 5 = ''Low''"
  by (simp add: get_priority_level_def)

section \<open>Keyword matching\<close>

lemma py_in_iff_sublist: "py_in p t \<longleftrightarrow> sublist p t"
  by (induction t) (auto simp: sublist_Cons_right)

lemma count_loop_filter:
  "count_loop t K (n, found) =
     (n + int (length (filter (\<lambda>k. py_in (lower k) t) K)),
      found @ filter (\<lambda>k. py_in (lower k) t) K)"
  by (induction K arbitrary: n found) auto

text \<open>
  C6: for every text \<open>T\<close> and keyword list \<open>K\<close>, the count that \<open>count_relevant_keywords\<close>
  returns is the length of the list of keywords it returns; these are keywords of \<open>K\<close>,
  in the order of \<open>K\<close>; and they are exactly the keywords whose lower-case form occurs as
  a contiguous piece of the lower-case text.
\<close>

theorem count_relevant_keywords_correct:
  "fst (count_relevant_keywords T K) = int (length (snd (count_relevant_keywords T K)))
   \<and> set (snd (count_relevant_keywords T K)) \<subseteq> set K
   \<and> subseq (snd (count_relevant_keywords T K)) K
   \<and> snd (count_relevant_keywords T K) = filter (\<lambda>k. sublist (lower k) (lower T)) K"
  by (simp add: count_relevant_keywords_def count_loop_filter py_in_iff_sublist)

lemma sublist_eval: "sublist p t = py_in p t"
  by (simp add: py_in_iff_sublist)

theorem count_relevant_keywords_correct_witness:
  "count_relevant_keywords ''I was a Cook and Cashier'' [''cook'', ''waiter'', ''cashier'']
     = (2, [''cook'', ''cashier''])"
proof -
  have "snd (count_relevant_keywords ''I was a Cook and Cashier'' [''cook'', ''waiter'', ''cashier''])
     = [''cook'', ''cashier'']"
    using count_relevant_keywords_correct
      [of "''I was a Cook and Cashier''" "[''cook'', ''waiter'', ''cashier'']"]
    by (simp add: sublist_eval eval_chr)
  moreover from this have "fst (count_relevant_keywords ''I was a Cook and Cashier'' [''cook'', ''waiter'', ''cashier'']) = 2"
    using count_relevant_keywords_correct
      [of "''I was a Cook and Cashier''" "[''cook'', ''waiter'', ''cashier'']"]
    by simp
  ultimately show ?thesis by (simp add: prod_eq_iff)
qed

section \<open>Building a record\<close>

lemma process_resume_None_iff:
  "process_resume ex p K = None \<longleftrightarrow> ex p = []"
  by (simp add: process_resume_def Let_def split: prod.split)

lemma process_resume_Some:
  assumes "process_resume ex p K = Some r"
  shows "ex p \<noteq> []"
    and "keyword_count r = fst (count_relevant_keywords (ex p) K)"
    and "is_relevant r = (2 \<le> keyword_count r)"
    and "file_name r = basename p"
  using assms
  by (auto simp add: process_resume_def Let_def split: prod.splits if_splits)

text \<open>
  C7: in every record that \<open>process_resume\<close> returns, \<open>is_relevant\<close> holds exactly when
  \<open>keyword_count\<close> is at least 2.
\<close>

theorem process_resume_is_relevant:
  assumes "process_resume ex p K = Some r"
  shows "is_relevant r \<longleftrightarrow> keyword_count r \<ge> 2"
  using process_resume_Some(3) [OF assms] .

text \<open>The witness is at the boundary: two keywords found are relevant, one is not.\<close>

theorem process_resume_is_relevant_witness:
  "map_option (\<lambda>r. (keyword_count r, is_relevant r))
     (process_resume (\<lambda>p. ''I was a Cook and Cashier'') ''./input_cv/a.pdf''
        [''cook'', ''cashier'']) = Some (2, True)
   \<and> map_option (\<lambda>r. (keyword_count r, is_relevant r))
     (process_resume (\<lambda>p. ''I was a Cook'') ''./input_cv/b.pdf''
        [''cook'', ''cashier'']) = Some (1, False)"
proof -
  obtain r where r: "process_resume (\<lambda>p. ''I was a Cook and Cashier'') ''./input_cv/a.pdf''
        [''cook'', ''cashier''] = Some r"
    using process_resume_None_iff
      [of "\<lambda>p. ''I was a Cook and Cashier''" "''./input_cv/a.pdf''" "[''cook'', ''cashier'']"]
    by auto
  have "keyword_count r = 2"
    using process_resume_Some(2) [OF r]
    by (simp add: count_relevant_keywords_def eval_chr)
  moreover from this have "is_relevant r"
    using process_resume_is_relevant [OF r] by simp
  moreover
  obtain q where q: "process_resume (\<lambda>p. ''I was a Cook'') ''./input_cv/b.pdf''
        [''cook'', ''cashier''] = Some q"
    using process_resume_None_iff
      [of "\<lambda>p. ''I was a Cook''" "''./input_cv/b.pdf''" "[''cook'', ''cashier'']"]
    by auto
  have "keyword_count q = 1"
    using process_resume_Some(2) [OF q]
    by (simp add: count_relevant_keywords_def eval_chr)
  moreover from this have "\<not> is_relevant q"
    using process_resume_is_relevant [OF q] by simp
  ultimately show ?thesis using r q by simp
qed

section \<open>A batch of documents\<close>

lemma monitor_loop_map_filter:
  "monitor_loop ex K fs acc =
     acc @ List.map_filter (\<lambda>f. process_resume ex (os_path_join INPUT_DIR f) K) fs"
  by (induction fs arbitrary: acc) (auto simp: List.map_filter_simps split: option.split)

lemma monitor_input_folder_map_filter:
  "monitor_input_folder ex listing K =
     List.map_filter (\<lambda>f. process_resume ex (os_path_join INPUT_DIR f) K)
       (filter (\<lambda>f. suffix ''.pdf'' (lower f)) listing)"
  by (simp add: monitor_input_folder_def Let_def monitor_loop_map_filter List.map_filter_simps)

lemma map_filter_file_name:
  "map file_name (List.map_filter (\<lambda>f. process_resume ex (g f) K) fs) =
     map (\<lambda>f. basename (g f)) (filter (\<lambda>f. ex (g f) \<noteq> []) fs)"
proof (induction fs)
  case Nil
  show ?case by (simp add: List.map_filter_simps)
next
  case (Cons f fs)
  show ?case
  proof (cases "process_resume ex (g f) K")
    case None
    moreover from None have "ex (g f) = []" by (simp add: process_resume_None_iff)
    ultimately show ?thesis using Cons by (simp add: List.map_filter_simps)
  next
    case (Some r)
    then show ?thesis
      using Cons process_resume_Some(1,4) [OF Some] by (simp add: List.map_filter_simps)
  qed
qed

lemma basename_input_file:
  assumes "CHR ''/'' \<notin> set f"
  shows "basename (os_path_join INPUT_DIR f) = f"
proof -
  have "\<not> prefix ''/'' f" using assms by (cases f) auto
  moreover have "takeWhile (\<lambda>c. c \<noteq> CHR ''/'') (rev f) = rev f"
    using assms by (auto simp add: takeWhile_eq_all_conv)
  ultimately show ?thesis
    by (simp add: basename_def os_path_join_def INPUT_DIR_def takeWhile_append suffix_def)
qed

text \<open>
  C9: \<open>monitor_input_folder\<close> returns, for every directory listing, the records of the
  PDF files for which \<open>process_resume\<close> builds one, in the order of the listing;
  \<open>process_resume\<close> builds none exactly when no text was extracted; so the file names in
  the result are those of the PDF files with text, and a file without text is not among
  them (the entries of a directory listing hold no slash). The result is a list in every
  case: the model has no error value, since no step of the loop raises.
\<close>

theorem monitor_input_folder_skips_unreadable:
  "monitor_input_folder ex listing K =
     List.map_filter (\<lambda>f. process_resume ex (os_path_join INPUT_DIR f) K)
       (filter (\<lambda>f. suffix ''.pdf'' (lower f)) listing)
   \<and> (\<forall>p. process_resume ex p K = None \<longleftrightarrow> ex p = [])
   \<and> map file_name (monitor_input_folder ex listing K) =
       map (\<lambda>f. basename (os_path_join INPUT_DIR f))
         (filter (\<lambda>f. ex (os_path_join INPUT_DIR f) \<noteq> [])
           (filter (\<lambda>f. suffix ''.pdf'' (lower f)) listing))
   \<and> ((\<forall>g \<in> set listing. CHR ''/'' \<notin> set g) \<longrightarrow>
        (\<forall>f \<in> set listing. ex (os_path_join INPUT_DIR f) = [] \<longrightarrow>
           f \<notin> file_name ` set (monitor_input_folder ex listing K)))"
proof -
  let ?pdfs = "filter (\<lambda>f. suffix ''.pdf'' (lower f)) listing"
  let ?out = "monitor_input_folder ex listing K"
  have names: "map file_name ?out =
       map (\<lambda>f. basename (os_path_join INPUT_DIR f))
         (filter (\<lambda>f. ex (os_path_join INPUT_DIR f) \<noteq> []) ?pdfs)"
    by (simp only: monitor_input_folder_map_filter map_filter_file_name)
  have absent: "f \<notin> file_name ` set ?out"
    if slash: "\<forall>g \<in> set listing. CHR ''/'' \<notin> set g"
      and f: "f \<in> set listing" "ex (os_path_join INPUT_DIR f) = []" for f
  proof
    assume "f \<in> file_name ` set ?out"
    then have "f \<in> set (map file_name ?out)" by simp
    then obtain g where g: "g \<in> set listing" "ex (os_path_join INPUT_DIR g) \<noteq> []"
        "f = basename (os_path_join INPUT_DIR g)"
      unfolding names by auto
    then have "f = g" using slash basename_input_file by simp
    then show False using g(2) f(2) by simp
  qed
  show ?thesis
    using names absent
    by (simp add: monitor_input_folder_map_filter process_resume_None_iff)
qed

theorem monitor_input_folder_skips_unreadable_witness:
  "map file_name
     (monitor_input_folder (\<lambda>p. if p = ''./input_cv/b.pdf'' then [] else ''Cook and cashier'')
        [''a.pdf'', ''b.pdf'', ''c.PDF'', ''notes.txt''] [''cook'', ''cashier''])
     = [''a.pdf'', ''c.PDF'']
   \<and> ''b.pdf'' \<notin> file_name `
       set (monitor_input_folder (\<lambda>p. if p = ''./input_cv/b.pdf'' then [] else ''Cook and cashier'')
        [''a.pdf'', ''b.pdf'', ''c.PDF'', ''notes.txt''] [''cook'', ''cashier''])"
proof -
  let ?ex = "\<lambda>p. if p = ''./input_cv/b.pdf'' then [] else ''Cook and cashier''"
  let ?ls = "[''a.pdf'', ''b.pdf'', ''c.PDF'', ''notes.txt'']"
  note t = monitor_input_folder_skips_unreadable [of ?ex ?ls "[''cook'', ''cashier'']"]
  have names: "map file_name (monitor_input_folder ?ex ?ls [''cook'', ''cashier''])
      = [''a.pdf'', ''c.PDF'']"
    using t [THEN conjunct2, THEN conjunct2, THEN conjunct1]
    by (simp add: os_path_join_def basename_def INPUT_DIR_def suffix_to_prefix eval_chr)
  have absent: "''b.pdf'' \<notin> file_name ` set (monitor_input_folder ?ex ?ls [''cook'', ''cashier''])"
    using t [THEN conjunct2, THEN conjunct2, THEN conjunct2]
    by (simp add: os_path_join_def INPUT_DIR_def suffix_to_prefix)
  show ?thesis using names absent by simp
qed

section \<open>The join with the survey\<close>

lemma join_row_sel [simp]:
  "availability (join_row r a c v) = a" "courses (join_row r a c v) = c"
  "visa (join_row r a c v) = v" "email (join_row r a c v) = email r"
  "resume.truncate (join_row r a c v) = r"
  by (simp_all add: join_row_def resume.defs joined_row.defs)

lemma classify_row_sel [simp]:
  "availability (classify_row row) = availability row" "courses (classify_row row) = courses row"
  "visa (classify_row row) = visa row" "email (classify_row row) = email row"
  "resume.truncate (classify_row row) = resume.truncate row"
  "priority_score (classify_row row) = calculate_priority row"
  "priority (classify_row row) = get_priority_level (calculate_priority row)"
  by (simp_all add: classify_row_def Let_def resume.defs joined_row.defs classified_row.defs)

lemma length_concat_nonempty:
  "(\<And>x. x \<in> set xs \<Longrightarrow> f x \<noteq> []) \<Longrightarrow> length xs \<le> length (concat (map f xs))"
proof (induction xs)
  case Nil
  show ?case by simp
next
  case (Cons x xs)
  have "f x \<noteq> []" using Cons.prems by simp
  then have "1 \<le> length (f x)" by (cases "f x") simp_all
  moreover have "length xs \<le> length (concat (map f xs))"
    using Cons.IH Cons.prems by simp
  ultimately show ?case by simp
qed

lemma left_join_set:
  "set (left_join resumes sv) =
     (\<Union>r \<in> set resumes.
        if matches sv r = []
        then {join_row r (column (has_availability sv) NaN) (column (has_courses sv) NaN)
                (column (has_visa sv) NaN)}
        else (\<lambda>s. join_row r (column (has_availability sv) (s_availability s))
                (column (has_courses sv) (s_courses s)) (column (has_visa sv) (s_visa s)))
             ` set (matches sv r))"
  by (auto simp add: left_join_def Let_def split: if_splits)

lemma left_join_length: "length resumes \<le> length (left_join resumes sv)"
  unfolding left_join_def
  by (rule length_concat_nonempty) (simp add: Let_def)

lemma left_join_truncate:
  "map resume.truncate (left_join resumes sv) =
     concat (map (\<lambda>r. replicate (max 1 (length (matches sv r))) r) resumes)"
proof (induction resumes)
  case Nil
  show ?case by (simp add: left_join_def)
next
  case (Cons r rs)
  have "map resume.truncate (map (\<lambda>s. join_row r (f s) (g s) (h s)) ms) = replicate (length ms) r"
    for f g h and ms :: "survey_row list"
    by (induction ms) simp_all
  moreover have "max 1 (length ms) = length ms" if "ms \<noteq> []" for ms :: "survey_row list"
    using that by (cases ms) simp_all
  ultimately show ?case
    using Cons.IH by (simp add: left_join_def Let_def)
qed

lemma left_join_matched:
  assumes "r \<in> set resumes" and "x \<in> set (survey_rows sv)" and "s_email x = Str (email r)"
  shows "join_row r (column (has_availability sv) (s_availability x))
           (column (has_courses sv) (s_courses x)) (column (has_visa sv) (s_visa x))
         \<in> set (left_join resumes sv)"
proof -
  have x: "x \<in> set (matches sv r)" using assms(2,3) by (simp add: matches_def)
  then have "matches sv r \<noteq> []" by auto
  then show ?thesis using assms(1) x unfolding left_join_set by force
qed

lemma left_join_origin:
  assumes "row \<in> set (left_join resumes sv)"
  shows "if \<forall>x \<in> set (survey_rows sv). s_email x \<noteq> Str (email row)
         then availability row = column (has_availability sv) NaN
              \<and> courses row = column (has_courses sv) NaN
              \<and> visa row = column (has_visa sv) NaN
         else \<exists>x \<in> set (survey_rows sv). s_email x = Str (email row)
              \<and> availability row = column (has_availability sv) (s_availability x)
              \<and> courses row = column (has_courses sv) (s_courses x)
              \<and> visa row = column (has_visa sv) (s_visa x)"
proof -
  from assms obtain r where r: "r \<in> set resumes"
    and row: "row \<in> (if matches sv r = []
        then {join_row r (column (has_availability sv) NaN) (column (has_courses sv) NaN)
                (column (has_visa sv) NaN)}
        else (\<lambda>s. join_row r (column (has_availability sv) (s_availability s))
                (column (has_courses sv) (s_courses s)) (column (has_visa sv) (s_visa s)))
             ` set (matches sv r))"
    unfolding left_join_set by blast
  have e: "email row = email r" using row by (auto split: if_splits)
  have m: "matches sv r = [] \<longleftrightarrow> (\<forall>x \<in> set (survey_rows sv). s_email x \<noteq> Str (email row))"
    unfolding e matches_def by (simp add: filter_empty_conv)
  show ?thesis
  proof (cases "matches sv r = []")
    case True
    then show ?thesis using row m by simp
  next
    case False
    then obtain x where "x \<in> set (matches sv r)"
      and "row = join_row r (column (has_availability sv) (s_availability x))
                (column (has_courses sv) (s_courses x)) (column (has_visa sv) (s_visa x))"
      using row by auto
    then show ?thesis using False m e by (auto simp add: matches_def)
  qed
qed

lemma left_join_rows:
  assumes "j \<in> set (left_join resumes sv)"
  shows "resume.truncate j \<in> set resumes"
  using assms unfolding left_join_set by (auto split: if_splits)

lemma classify_candidates_no_survey:
  assumes "sv = None \<or> (\<exists>s. sv = Some s \<and> survey_rows s = [])"
  shows "classify_candidates resumes sv = Inr (map classify_row (unknown_rows resumes))"
  using assms by (auto simp add: classify_candidates_def)

lemma classify_candidates_survey:
  assumes "\<exists>x \<in> set (survey_rows s). \<exists>e. s_email x = Str e"
  shows "classify_candidates resumes (Some s) = Inr (map classify_row (left_join resumes s))"
proof -
  have "survey_rows s \<noteq> []" using assms by auto
  moreover have "\<not> list_all (\<lambda>x. s_email x = NaN) (survey_rows s)"
    using assms by (fastforce simp add: list_all_iff)
  ultimately show ?thesis by (simp add: classify_candidates_def merge_left_def)
qed

lemma classify_candidates_raises:
  assumes "resumes \<noteq> []" and "survey_rows s \<noteq> []"
    and "\<forall>x \<in> set (survey_rows s). s_email x = NaN"
  shows "classify_candidates resumes (Some s) = Inl ValueError"
  using assms by (simp add: classify_candidates_def merge_left_def list_all_iff)

lemma classify_candidates_rows:
  assumes "classify_candidates resumes sv = Inr out" and "c \<in> set out"
  shows "\<exists>j. c = classify_row j \<and> resume.truncate j \<in> set resumes"
proof -
  have u: "resume.truncate j \<in> set resumes" if "j \<in> set (unknown_rows resumes)" for j
    using that by (auto simp add: unknown_rows_def)
  obtain merged where m: "out = map classify_row merged"
      "merged = unknown_rows resumes \<or> (\<exists>s. merged = left_join resumes s)"
    using assms(1)
    by (auto simp add: classify_candidates_def merge_left_def
        split: option.splits if_splits sum.splits)
  from assms(2) m(1) obtain j where j: "j \<in> set merged" "c = classify_row j" by auto
  then have "resume.truncate j \<in> set resumes"
    using m(2) left_join_rows u by blast
  then show ?thesis using j(2) by blast
qed

lemmas eval_classify = classify_candidates_def merge_left_def left_join_def unknown_rows_def
  matches_def column_def classify_row_def join_row_def resume.defs joined_row.defs
  classified_row.defs calculate_priority_def relevance_points_def keyword_points_def
  availability_points_def courses_points_def visa_points_def get_priority_level_def

text \<open>
  C3 as stated fails where a record has no partner in a survey that has rows: the left
  join leaves its survey fields missing (\<open>NaN\<close>), it does not write \<open>Unknown\<close> into
  them. \<open>calculate_priority\<close> expects this: it tests every survey field with \<open>pd.notna\<close>.
  It fails as well on a survey whose email column holds no text: the merge raises, and
  there is no output in which a record could appear.
\<close>

theorem unmatched_record_counterexample:
  "classify_candidates [sample_resume] (Some other_survey) =
     Inr [\<lparr>name = ''Ann Lee'', email = ''a@x.com'', phone = [], experience = [], skills = [],
           keyword_count = 3, found_keywords = ''cook, cashier, restaurant'',
           is_relevant = True, file_name = ''a.pdf'',
           availability = Some NaN, courses = Some NaN, visa = Some NaN,
           priority_score = 5, priority = ''Low''\<rparr>]
   \<and> classify_candidates [sample_resume] (Some blank_key_survey) = Inl ValueError"
  by (simp add: eval_classify sample_resume_def other_survey_def blank_key_survey_def)

text \<open>
  C3, amended. For every list of records: when the survey is absent or has no rows, the
  result has one row for each record, in order, and every row has \<open>Unknown\<close> in each
  survey field. When the survey has a row whose email is a text, the result is a left join
  on email: each record appears at least once, the result is at least as long as the
  list, and the records of its rows are the records of the list in order, each as often
  as it has partners in the survey and once if it has none; for every record and every
  survey row with the same email there is a row of the result with that record and the
  survey fields of that survey row; every row of the result whose email is the email of
  no survey row has each survey field missing (\<open>NaN\<close>), and every other row has the
  survey fields of a survey row with its email. A survey field is \<open>column has v\<close>: the
  cell \<open>v\<close> if the survey has the column, and no field at all if it has not.
\<close>

theorem classify_candidates_left_join:
  "(sv = None \<or> (\<exists>s. sv = Some s \<and> survey_rows s = []) \<longrightarrow>
      (\<exists>out. classify_candidates resumes sv = Inr out
         \<and> map resume.truncate out = resumes
         \<and> (\<forall>row \<in> set out.
               availability row = Some (Str ''Unknown'') \<and> courses row = Some (Str ''Unknown'')
               \<and> visa row = Some (Str ''Unknown''))))
   \<and> (\<forall>s. sv = Some s \<and> (\<exists>x \<in> set (survey_rows s). \<exists>e. s_email x = Str e) \<longrightarrow>
      (\<exists>out. classify_candidates resumes sv = Inr out
         \<and> (\<forall>r \<in> set resumes. r \<in> resume.truncate ` set out)
         \<and> length resumes \<le> length out
         \<and> map resume.truncate out =
             concat (map (\<lambda>r. replicate (max 1 (length (matches s r))) r) resumes)
         \<and> (\<forall>r \<in> set resumes. \<forall>x \<in> set (survey_rows s). s_email x = Str (email r) \<longrightarrow>
               (\<exists>row \<in> set out. resume.truncate row = r
                  \<and> availability row = column (has_availability s) (s_availability x)
                  \<and> courses row = column (has_courses s) (s_courses x)
                  \<and> visa row = column (has_visa s) (s_visa x)))
         \<and> (\<forall>row \<in> set out.
               if \<forall>x \<in> set (survey_rows s). s_email x \<noteq> Str (email row)
               then availability row = column (has_availability s) NaN
                    \<and> courses row = column (has_courses s) NaN
                    \<and> visa row = column (has_visa s) NaN
               else \<exists>x \<in> set (survey_rows s). s_email x = Str (email row)
                    \<and> availability row = column (has_availability s) (s_availability x)
                    \<and> courses row = column (has_courses s) (s_courses x)
                    \<and> visa row = column (has_visa s) (s_visa x))))"
proof (intro conjI impI allI)
  assume "sv = None \<or> (\<exists>s. sv = Some s \<and> survey_rows s = [])"
  then have "classify_candidates resumes sv = Inr (map classify_row (unknown_rows resumes))"
    by (rule classify_candidates_no_survey)
  moreover have "map resume.truncate (map classify_row (unknown_rows resumes)) = resumes"
    by (simp add: unknown_rows_def comp_def)
  moreover have "\<forall>row \<in> set (map classify_row (unknown_rows resumes)).
      availability row = Some (Str ''Unknown'') \<and> courses row = Some (Str ''Unknown'')
      \<and> visa row = Some (Str ''Unknown'')"
    by (auto simp add: unknown_rows_def)
  ultimately show "\<exists>out. classify_candidates resumes sv = Inr out
         \<and> map resume.truncate out = resumes
         \<and> (\<forall>row \<in> set out.
               availability row = Some (Str ''Unknown'') \<and> courses row = Some (Str ''Unknown'')
               \<and> visa row = Some (Str ''Unknown''))"
    by blast
next
  fix s
  assume a: "sv = Some s \<and> (\<exists>x \<in> set (survey_rows s). \<exists>e. s_email x = Str e)"
  let ?out = "map classify_row (left_join resumes s)"
  have out: "classify_candidates resumes sv = Inr ?out"
    using a classify_candidates_survey by blast
  have tr: "map resume.truncate ?out =
      concat (map (\<lambda>r. replicate (max 1 (length (matches s r))) r) resumes)"
    using left_join_truncate [of resumes s] by (simp add: comp_def)
  have len: "length resumes \<le> length ?out"
    using left_join_length [of resumes s] by simp
  have app: "\<forall>r \<in> set resumes. r \<in> resume.truncate ` set ?out"
  proof
    fix r assume r: "r \<in> set resumes"
    have "1 \<le> max 1 (length (matches s r))" by simp
    then have "r \<in> set (replicate (max 1 (length (matches s r))) r)" by simp
    then have "r \<in> set (concat (map (\<lambda>r. replicate (max 1 (length (matches s r))) r) resumes))"
      using r by auto
    then have "r \<in> set (map resume.truncate ?out)" by (simp only: tr)
    then show "r \<in> resume.truncate ` set ?out" by (simp only: set_map)
  qed
  have matched: "\<forall>r \<in> set resumes. \<forall>x \<in> set (survey_rows s). s_email x = Str (email r) \<longrightarrow>
      (\<exists>row \<in> set ?out. resume.truncate row = r
         \<and> availability row = column (has_availability s) (s_availability x)
         \<and> courses row = column (has_courses s) (s_courses x)
         \<and> visa row = column (has_visa s) (s_visa x))"
  proof (intro ballI impI)
    fix r x
    assume "r \<in> set resumes" "x \<in> set (survey_rows s)" "s_email x = Str (email r)"
    then have "classify_row (join_row r (column (has_availability s) (s_availability x))
           (column (has_courses s) (s_courses x)) (column (has_visa s) (s_visa x))) \<in> set ?out"
      using left_join_matched by simp
    then show "\<exists>row \<in> set ?out. resume.truncate row = r
         \<and> availability row = column (has_availability s) (s_availability x)
         \<and> courses row = column (has_courses s) (s_courses x)
         \<and> visa row = column (has_visa s) (s_visa x)"
      by (rule rev_bexI) simp
  qed
  have origin: "\<forall>row \<in> set ?out.
      if \<forall>x \<in> set (survey_rows s). s_email x \<noteq> Str (email row)
      then availability row = column (has_availability s) NaN
           \<and> courses row = column (has_courses s) NaN
           \<and> visa row = column (has_visa s) NaN
      else \<exists>x \<in> set (survey_rows s). s_email x = Str (email row)
           \<and> availability row = column (has_availability s) (s_availability x)
           \<and> courses row = column (has_courses s) (s_courses x)
           \<and> visa row = column (has_visa s) (s_visa x)"
  proof
    fix row assume "row \<in> set ?out"
    then obtain j where j: "j \<in> set (left_join resumes s)" "row = classify_row j" by auto
    show "if \<forall>x \<in> set (survey_rows s). s_email x \<noteq> Str (email row)
      then availability row = column (has_availability s) NaN
           \<and> courses row = column (has_courses s) NaN
           \<and> visa row = column (has_visa s) NaN
      else \<exists>x \<in> set (survey_rows s). s_email x = Str (email row)
           \<and> availability row = column (has_availability s) (s_availability x)
           \<and> courses row = column (has_courses s) (s_courses x)
           \<and> visa row = column (has_visa s) (s_visa x)"
      using left_join_origin [OF j(1)] unfolding j(2) by simp
  qed
  from out app len tr matched origin
  show "\<exists>out. classify_candidates resumes sv = Inr out
         \<and> (\<forall>r \<in> set resumes. r \<in> resume.truncate ` set out)
         \<and> length resumes \<le> length out
         \<and> map resume.truncate out =
             concat (map (\<lambda>r. replicate (max 1 (length (matches s r))) r) resumes)
         \<and> (\<forall>r \<in> set resumes. \<forall>x \<in> set (survey_rows s). s_email x = Str (email r) \<longrightarrow>
               (\<exists>row \<in> set out. resume.truncate row = r
                  \<and> availability row = column (has_availability s) (s_availability x)
                  \<and> courses row = column (has_courses s) (s_courses x)
                  \<and> visa row = column (has_visa s) (s_visa x)))
         \<and> (\<forall>row \<in> set out.
               if \<forall>x \<in> set (survey_rows s). s_email x \<noteq> Str (email row)
               then availability row = column (has_availability s) NaN
                    \<and> courses row = column (has_courses s) NaN
                    \<and> visa row = column (has_visa s) NaN
               else \<exists>x \<in> set (survey_rows s). s_email x = Str (email row)
                    \<and> availability row = column (has_availability s) (s_availability x)
                    \<and> courses row = column (has_courses s) (s_courses x)
                    \<and> visa row = column (has_visa s) (s_visa x))"
    by blast
qed

theorem classify_candidates_left_join_witness:
  "(\<exists>out. classify_candidates [sample_resume] (Some own_survey) = Inr out
      \<and> map resume.truncate out = [sample_resume, sample_resume]
      \<and> Some (Str ''full availability'') \<in> availability ` set out
      \<and> Some (Str ''night'') \<in> availability ` set out
      \<and> Some NaN \<notin> availability ` set out)
   \<and> (\<exists>out. classify_candidates [sample_resume] (Some other_survey) = Inr out
      \<and> map resume.truncate out = [sample_resume]
      \<and> availability ` set out = {Some NaN} \<and> courses ` set out = {Some NaN}
      \<and> visa ` set out = {Some NaN})
   \<and> (\<exists>out. classify_candidates [sample_resume] None = Inr out
      \<and> map resume.truncate out = [sample_resume]
      \<and> availability ` set out = {Some (Str ''Unknown'')}
      \<and> courses ` set out = {Some (Str ''Unknown'')}
      \<and> visa ` set out = {Some (Str ''Unknown'')})"
proof -
  have img: "f ` set xs = {v}" if "xs \<noteq> []" "\<forall>x \<in> set xs. f x = v"
    for f :: "classified_row \<Rightarrow> cell option" and xs v
    using that by (cases xs) auto
  have ne: "xs \<noteq> []" if "map resume.truncate xs = r # rs"
    for xs :: "classified_row list" and r rs
    using that by auto
  have e: "email sample_resume = ''a@x.com''"
    by (simp add: sample_resume_def)

  have own_key: "\<exists>x \<in> set (survey_rows own_survey). \<exists>e. s_email x = Str e"
    by (simp add: own_survey_def)
  have own_m: "length (matches own_survey sample_resume) = 2"
    by (simp add: matches_def own_survey_def e)
  obtain out1 where o1: "classify_candidates [sample_resume] (Some own_survey) = Inr out1"
    and tr1: "map resume.truncate out1 =
        concat (map (\<lambda>r. replicate (max 1 (length (matches own_survey r))) r) [sample_resume])"
    and ma1: "\<forall>r \<in> set [sample_resume]. \<forall>x \<in> set (survey_rows own_survey).
        s_email x = Str (email r) \<longrightarrow>
          (\<exists>row \<in> set out1. resume.truncate row = r
             \<and> availability row = column (has_availability own_survey) (s_availability x)
             \<and> courses row = column (has_courses own_survey) (s_courses x)
             \<and> visa row = column (has_visa own_survey) (s_visa x))"
    and or1: "\<forall>row \<in> set out1.
        if \<forall>x \<in> set (survey_rows own_survey). s_email x \<noteq> Str (email row)
        then availability row = column (has_availability own_survey) NaN
             \<and> courses row = column (has_courses own_survey) NaN
             \<and> visa row = column (has_visa own_survey) NaN
        else \<exists>x \<in> set (survey_rows own_survey). s_email x = Str (email row)
             \<and> availability row = column (has_availability own_survey) (s_availability x)
             \<and> courses row = column (has_courses own_survey) (s_courses x)
             \<and> visa row = column (has_visa own_survey) (s_visa x)"
    using classify_candidates_left_join [of "Some own_survey" "[sample_resume]",
        THEN conjunct2, rule_format, of own_survey] own_key
    by auto
  have a1: "map resume.truncate out1 = [sample_resume, sample_resume]"
    using tr1 own_m by (simp add: numeral_2_eq_2)
  have "\<exists>row \<in> set out1. availability row = Some (Str ''full availability'')"
    using ma1 by (simp add: own_survey_def e column_def) blast
  then have a2: "Some (Str ''full availability'') \<in> availability ` set out1"
    by (auto simp add: image_iff) metis
  have "\<exists>row \<in> set out1. availability row = Some (Str ''night'')"
    using ma1 by (simp add: own_survey_def e column_def) blast
  then have a3: "Some (Str ''night'') \<in> availability ` set out1"
    by (auto simp add: image_iff) metis
  have a4: "Some NaN \<notin> availability ` set out1"
  proof
    assume "Some NaN \<in> availability ` set out1"
    then obtain row where row: "row \<in> set out1" "availability row = Some NaN" by auto
    then have "resume.truncate row \<in> set (map resume.truncate out1)" by simp
    then have "resume.truncate row = sample_resume" unfolding a1 by simp
    then have "email row = ''a@x.com''"
      using e by (metis resume.select_convs(2) resume.truncate_def)
    then show False
      using or1 [rule_format, OF row(1)] row(2)
      by (simp add: own_survey_def column_def)
  qed

  have other_key: "\<exists>x \<in> set (survey_rows other_survey). \<exists>e. s_email x = Str e"
    by (simp add: other_survey_def)
  obtain out2 where o2: "classify_candidates [sample_resume] (Some other_survey) = Inr out2"
    and tr2: "map resume.truncate out2 =
        concat (map (\<lambda>r. replicate (max 1 (length (matches other_survey r))) r) [sample_resume])"
    and or2: "\<forall>row \<in> set out2.
        if \<forall>x \<in> set (survey_rows other_survey). s_email x \<noteq> Str (email row)
        then availability row = column (has_availability other_survey) NaN
             \<and> courses row = column (has_courses other_survey) NaN
             \<and> visa row = column (has_visa other_survey) NaN
        else \<exists>x \<in> set (survey_rows other_survey). s_email x = Str (email row)
             \<and> availability row = column (has_availability other_survey) (s_availability x)
             \<and> courses row = column (has_courses other_survey) (s_courses x)
             \<and> visa row = column (has_visa other_survey) (s_visa x)"
    using classify_candidates_left_join [of "Some other_survey" "[sample_resume]",
        THEN conjunct2, rule_format, of other_survey] other_key
    by auto
  have b1: "map resume.truncate out2 = [sample_resume]"
    using tr2 by (simp add: matches_def other_survey_def e)
  have b0: "\<forall>row \<in> set out2. availability row = Some NaN \<and> courses row = Some NaN
      \<and> visa row = Some NaN"
  proof
    fix row assume row: "row \<in> set out2"
    then have "resume.truncate row \<in> set (map resume.truncate out2)" by simp
    then have "resume.truncate row = sample_resume" unfolding b1 by simp
    then have "email row = ''a@x.com''"
      using e by (metis resume.select_convs(2) resume.truncate_def)
    then show "availability row = Some NaN \<and> courses row = Some NaN \<and> visa row = Some NaN"
      using or2 [rule_format, OF row]
      by (simp add: other_survey_def column_def)
  qed
  have b2: "availability ` set out2 = {Some NaN}"
    by (rule img [OF ne [OF b1]]) (simp add: b0)
  have b3: "courses ` set out2 = {Some NaN}"
    by (rule img [OF ne [OF b1]]) (simp add: b0)
  have b4: "visa ` set out2 = {Some NaN}"
    by (rule img [OF ne [OF b1]]) (simp add: b0)

  obtain out3 where o3: "classify_candidates [sample_resume] None = Inr out3"
    and c1: "map resume.truncate out3 = [sample_resume]"
    and c0: "\<forall>row \<in> set out3.
        availability row = Some (Str ''Unknown'') \<and> courses row = Some (Str ''Unknown'')
        \<and> visa row = Some (Str ''Unknown'')"
    using classify_candidates_left_join [of None "[sample_resume]", THEN conjunct1]
    by auto
  have c2: "availability ` set out3 = {Some (Str ''Unknown'')}"
    by (rule img [OF ne [OF c1]]) (simp add: c0)
  have c3: "courses ` set out3 = {Some (Str ''Unknown'')}"
    by (rule img [OF ne [OF c1]]) (simp add: c0)
  have c4: "visa ` set out3 = {Some (Str ''Unknown'')}"
    by (rule img [OF ne [OF c1]]) (simp add: c0)
  have w1: "\<exists>out. classify_candidates [sample_resume] (Some own_survey) = Inr out
      \<and> map resume.truncate out = [sample_resume, sample_resume]
      \<and> Some (Str ''full availability'') \<in> availability ` set out
      \<and> Some (Str ''night'') \<in> availability ` set out
      \<and> Some NaN \<notin> availability ` set out"
    by (rule exI [of _ out1]) (intro conjI o1 a1 a2 a3 a4)
  have w2: "\<exists>out. classify_candidates [sample_resume] (Some other_survey) = Inr out
      \<and> map resume.truncate out = [sample_resume]
      \<and> availability ` set out = {Some NaN} \<and> courses ` set out = {Some NaN}
      \<and> visa ` set out = {Some NaN}"
    by (rule exI [of _ out2]) (intro conjI o2 b1 b2 b3 b4)
  have w3: "\<exists>out. classify_candidates [sample_resume] None = Inr out
      \<and> map resume.truncate out = [sample_resume]
      \<and> availability ` set out = {Some (Str ''Unknown'')}
      \<and> courses ` set out = {Some (Str ''Unknown'')}
      \<and> visa ` set out = {Some (Str ''Unknown'')}"
    by (rule exI [of _ out3]) (intro conjI o3 c1 c2 c3 c4)
  from w1 w2 w3 show ?thesis by (intro conjI)
qed

section \<open>Text that is only whitespace\<close>

lemma re_search_from_no_word:
  assumes "\<forall>c \<in> set s. \<not> is_word c"
    and "case p of Some c \<Rightarrow> \<not> is_word c | None \<Rightarrow> True"
  shows "re_search_from (Seq WordB r) p s = None"
  using assms
proof (induction s arbitrary: p)
  case Nil
  then show ?case by (simp add: at_boundary_def split: option.splits)
next
  case (Cons c cs)
  have "\<not> at_boundary p (c # cs)"
    using Cons.prems by (simp add: at_boundary_def split: option.splits)
  moreover have "re_search_from (Seq WordB r) (Some c) cs = None"
    using Cons.prems by (intro Cons.IH) simp_all
  ultimately show ?case by simp
qed

lemma re_search_spaces:
  assumes "\<forall>c \<in> set s. is_space c"
  shows "re_search email_pattern s = None" and "re_search phone_pattern s = None"
  using assms
  by (simp_all add: re_search_def email_pattern_def phone_pattern_def
      re_search_from_no_word is_space_not_word)

lemma Lit_ci_spaces:
  assumes "\<forall>c \<in> set s. is_space c" and "\<not> is_space (lower_chr h)"
  shows "rx_match (Lit_ci (h # w)) (q, s) = []"
proof (cases s)
  case Nil
  then show ?thesis by simp
next
  case (Cons c cs)
  then have "is_space c" using assms(1) by simp
  then have "lower_chr c \<noteq> lower_chr h"
    using assms(2) by (metis lower_chr_space)
  then show ?thesis using Cons by simp
qed

lemma header_names_spaces:
  assumes "\<forall>c \<in> set s. is_space c"
  shows "rx_match header_names (q, s) = []"
  using assms
  by (simp add: header_names_def Lit_ci_spaces eval_chr del: Lit_ci.simps)

lemma header_pattern_spaces:
  assumes "\<forall>c \<in> set s. is_space c"
  shows "rx_match header_pattern (p, s) = []"
  unfolding header_pattern_def
proof (rule seq_no_match)
  fix q s'
  assume "(q, s') \<in> set (rx_match (Cls (\<lambda>c. c = CHR 0x0A)) (p, s))"
  then have s': "\<forall>c \<in> set s'. is_space c"
    using assms set_mono_suffix [OF rx_match_suffix] by blast
  show "rx_match (Seq (Rep 0 None is_space)
       (Seq header_names (Alt (Rep 0 None is_space) (Cls (\<lambda>c. c = CHR '':''))))) (q, s') = []"
  proof (rule seq_no_match)
    fix q' s''
    assume "(q', s'') \<in> set (rx_match (Rep 0 None is_space) (q, s'))"
    then have "\<forall>c \<in> set s''. is_space c"
      using s' set_mono_suffix [OF rx_match_suffix] by blast
    then show "rx_match (Seq header_names (Alt (Rep 0 None is_space) (Cls (\<lambda>c. c = CHR '':''))))
        (q', s'') = []"
      by (simp add: header_names_spaces)
  qed
qed

lemma re_split_from_no_match:
  assumes "\<And>p' s'. suffix s' s \<Longrightarrow> rx_match r (p', s') = []"
  shows "re_split_from r p acc s = [rev acc @ s]"
  using assms
proof (induction s arbitrary: p acc)
  case Nil
  show ?case by simp
next
  case (Cons c cs)
  have "rx_match r (p, c # cs) = []" by (rule Cons.prems) simp
  moreover have "re_split_from r (Some c) (c # acc) cs = [rev (c # acc) @ cs]"
    by (rule Cons.IH) (simp add: Cons.prems suffix_ConsI)
  ultimately show ?case by simp
qed

lemma re_split_spaces:
  assumes "\<forall>c \<in> set s. is_space c"
  shows "re_split header_pattern s = [s]"
proof -
  have "rx_match header_pattern (p', s') = []" if "suffix s' s" for p' s'
    using assms set_mono_suffix [OF that] by (intro header_pattern_spaces) blast
  then show ?thesis
    unfolding re_split_def using re_split_from_no_match [of s header_pattern None "[]"] by simp
qed

lemma extract_experience_and_skills_spaces:
  assumes "\<forall>c \<in> set s. is_space c"
  shows "extract_experience_and_skills s K = ([], [])"
  by (simp add: extract_experience_and_skills_def re_split_spaces [OF assms])

lemma strip_Nil: "strip [] = []"
  by (simp add: strip_def)

lemma extract_contact_info_spaces:
  assumes "\<forall>c \<in> set s. is_space c"
  shows "extract_contact_info s = ([], [], [])"
  by (simp add: extract_contact_info_def re_search_spaces [OF assms] strip_spaces [OF assms]
      strip_Nil)

lemma lower_has_nonspace:
  assumes "\<exists>c \<in> set k. \<not> is_space c"
  shows "\<exists>c \<in> set (lower k). \<not> is_space c"
  using assms by (auto simp add: lower_def is_space_lower_chr)

lemma not_in_spaces:
  assumes "\<forall>c \<in> set s. is_space c" and "\<exists>c \<in> set k. \<not> is_space c"
  shows "\<not> py_in (lower k) (lower s)"
proof
  assume "py_in (lower k) (lower s)"
  then have "set (lower k) \<subseteq> set s"
    using lower_spaces [OF assms(1)] set_mono_sublist by (simp add: py_in_iff_sublist)
  then show False using lower_has_nonspace [OF assms(2)] assms(1) by blast
qed

lemma count_relevant_keywords_spaces:
  assumes "\<forall>c \<in> set s. is_space c" and "\<forall>k \<in> set K. \<exists>c \<in> set k. \<not> is_space c"
  shows "count_relevant_keywords s K = (0, [])"
proof -
  have "filter (\<lambda>k. py_in (lower k) (lower s)) K = []"
    using assms not_in_spaces by (simp add: filter_empty_conv)
  then show ?thesis by (simp add: count_relevant_keywords_def count_loop_filter)
qed

lemma load_keywords_not_blank:
  "\<forall>k \<in> set (load_keywords f). \<exists>c \<in> set k. \<not> is_space c"
proof (cases f)
  case None
  then show ?thesis by (simp add: load_keywords_def default_keywords_def eval_chr)
next
  case (Some lines)
  then show ?thesis
    using strip_nonempty_has_nonspace lower_has_nonspace
    by (auto simp add: load_keywords_def)
qed

text \<open>
  C10: \<open>process_resume\<close> gives the skip signal exactly when the extracted text is the
  empty string. For a text that is not empty and holds only whitespace it builds a record
  whose name, email, phone, experience and skills are empty and whose \<open>keyword_count\<close>
  is 0, for every keyword list in which each keyword has a character that is not
  whitespace; the lists that \<open>load_keywords\<close> returns are of this kind, whatever the
  keywords file holds.
\<close>

theorem process_resume_whitespace_only:
  "(process_resume ex p K = None \<longleftrightarrow> ex p = [])
   \<and> (ex p \<noteq> [] \<and> (\<forall>c \<in> set (ex p). is_space c)
        \<and> (\<forall>k \<in> set K. \<exists>c \<in> set k. \<not> is_space c) \<longrightarrow>
      process_resume ex p K =
        Some \<lparr>name = [], email = [], phone = [], experience = [], skills = [],
               keyword_count = 0, found_keywords = [], is_relevant = False,
               file_name = basename p\<rparr>)
   \<and> (ex p \<noteq> [] \<and> (\<forall>c \<in> set (ex p). is_space c) \<longrightarrow>
      process_resume ex p (load_keywords kf) =
        Some \<lparr>name = [], email = [], phone = [], experience = [], skills = [],
               keyword_count = 0, found_keywords = [], is_relevant = False,
               file_name = basename p\<rparr>)"
proof -
  have rec: "process_resume ex p K' =
        Some \<lparr>name = [], email = [], phone = [], experience = [], skills = [],
               keyword_count = 0, found_keywords = [], is_relevant = False,
               file_name = basename p\<rparr>"
    if "ex p \<noteq> []" and sp: "\<forall>c \<in> set (ex p). is_space c"
      and kw: "\<forall>k \<in> set K'. \<exists>c \<in> set k. \<not> is_space c" for K'
    using that(1)
    by (simp add: process_resume_def extract_contact_info_spaces [OF sp]
        extract_experience_and_skills_spaces [OF sp] count_relevant_keywords_spaces [OF sp kw])
  show ?thesis
    using rec [of K] rec [of "load_keywords kf"] load_keywords_not_blank [of kf]
    by (simp add: process_resume_None_iff)
qed

theorem process_resume_whitespace_only_witness:
  "process_resume (\<lambda>p. [CHR '' '', CHR 0x0A, CHR 0x09]) ''./input_cv/blank.pdf''
      (load_keywords None) =
     Some \<lparr>name = [], email = [], phone = [], experience = [], skills = [],
            keyword_count = 0, found_keywords = [], is_relevant = False,
            file_name = ''blank.pdf''\<rparr>
   \<and> process_resume (\<lambda>p. []) ''./input_cv/blank.pdf'' (load_keywords None) = None"
  using process_resume_whitespace_only
    [of "\<lambda>p. [CHR '' '', CHR 0x0A, CHR 0x09]" "''./input_cv/blank.pdf''" "load_keywords None" None]
    process_resume_whitespace_only
    [of "\<lambda>p. []" "''./input_cv/blank.pdf''" "load_keywords None" None]
  by (simp add: basename_def is_space_def)

section \<open>Experience and skills\<close>

lemma Lit_ci_match_iff:
  "rx_match (Lit_ci w) (p, s) \<noteq> [] \<longleftrightarrow> prefix (lower w) (lower s)"
proof (induction w arbitrary: p s)
  case Nil
  show ?case by (simp add: lower_def)
next
  case (Cons h w)
  show ?case
  proof (cases s)
    case Nil
    then show ?thesis by (simp add: lower_def)
  next
    case (Cons c cs)
    then show ?thesis
      using Cons.IH [of "Some c" cs] by (auto simp add: lower_def)
  qed
qed

lemma re_search_from_found:
  "re_search_from r p [] \<noteq> None \<longleftrightarrow> rx_match r (p, []) \<noteq> []"
  "re_search_from r p (c # cs) \<noteq> None
     \<longleftrightarrow> rx_match r (p, c # cs) \<noteq> [] \<or> re_search_from r (Some c) cs \<noteq> None"
  by (cases "rx_match r (p, [])"; simp)
     (cases "rx_match r (p, c # cs)"; simp split: prod.split)

lemma re_search_from_two_words:
  "re_search_from (Alt (Lit_ci a) (Lit_ci b)) p s \<noteq> None
     \<longleftrightarrow> py_in (lower a) (lower s) \<or> py_in (lower b) (lower s)"
proof (induction s arbitrary: p)
  case Nil
  show ?case
    using Lit_ci_match_iff [of a p "[]"] Lit_ci_match_iff [of b p "[]"]
    by (simp only: re_search_from_found) (auto simp add: lower_def)
next
  case (Cons c cs)
  have l: "lower (c # cs) = lower_chr c # lower cs" by (simp add: lower_def)
  have "rx_match (Alt (Lit_ci a) (Lit_ci b)) (p, c # cs) \<noteq> []
      \<longleftrightarrow> prefix (lower a) (lower (c # cs)) \<or> prefix (lower b) (lower (c # cs))"
    using Lit_ci_match_iff [of a p "c # cs"] Lit_ci_match_iff [of b p "c # cs"] by simp
  then show ?case
    using Cons.IH [of "Some c"] unfolding l
    by (simp only: re_search_from_found py_in.simps) blast
qed

lemma skills_pattern_iff: "re_search skills_pattern seg \<noteq> None \<longleftrightarrow> contains_token seg"
  unfolding re_search_def skills_pattern_def contains_token_def
  by (simp only: re_search_from_two_words py_in_iff_sublist)

lemma skills_pattern_found:
  "(re_search skills_pattern seg = None) = (\<not> contains_token seg)"
  "(\<exists>y. re_search skills_pattern seg = Some y) = contains_token seg"
  using skills_pattern_iff [of seg] by auto

lemma skills_loop_Cons:
  "xs \<noteq> [] \<Longrightarrow>
     skills_loop (x # xs) = (if contains_token x then take 500 (strip (hd xs)) else skills_loop xs)"
  by (cases xs) (simp_all add: skills_pattern_found)

lemma skills_loop_first:
  assumes "\<forall>x \<in> set pre. \<not> contains_token x" and "contains_token a"
  shows "skills_loop (pre @ a # b # post) = take 500 (strip b)"
  using assms(1)
proof (induction pre)
  case Nil
  show ?case using assms(2) by (simp add: skills_pattern_found)
next
  case (Cons x pre)
  then show ?case by (simp add: skills_loop_Cons)
qed

lemma skills_loop_none:
  assumes "\<forall>x \<in> set (butlast xs). \<not> contains_token x"
  shows "skills_loop xs = []"
  using assms
  by (induction xs rule: skills_loop.induct) (simp_all add: skills_pattern_found)

lemma extract_lengths:
  "length (fst (extract_experience_and_skills text K)) \<le> 500"
  "length (snd (extract_experience_and_skills text K)) \<le> 500"
proof -
  have "length (skills_loop xs) \<le> 500" for xs
    by (induction xs rule: skills_loop.induct) simp_all
  then show "length (fst (extract_experience_and_skills text K)) \<le> 500"
    "length (snd (extract_experience_and_skills text K)) \<le> 500"
    by (simp_all add: extract_experience_and_skills_def Let_def)
qed

lemma extract_skills:
  "snd (extract_experience_and_skills text K) =
     (if skills_loop (re_split header_pattern text) = []
         \<and> length (re_split header_pattern text) > 2
      then take 500 (strip (last (re_split header_pattern text)))
      else skills_loop (re_split header_pattern text))"
  by (simp add: extract_experience_and_skills_def Let_def)

lemmas eval_rx = re_split_def re_search_def header_pattern_def header_names_def
  skills_pattern_def extract_experience_and_skills_def contains_token_def sublist_eval
  strip_def

text \<open>
  C8 as stated fails on a text with one header: the split has two segments, the first
  does not contain the token, and the skills text is empty, not the last segment. The
  code falls back to the last segment only when \<open>len(sections) > 2\<close>.
\<close>

theorem skills_fallback_counterexample:
  "re_split header_pattern ''Ann\<newline>EXPERIENCE\<newline>cook'' = [''Ann'', ''cook'']
   \<and> \<not> contains_token ''Ann''
   \<and> snd (extract_experience_and_skills ''Ann\<newline>EXPERIENCE\<newline>cook'' []) = []
   \<and> last (re_split header_pattern ''Ann\<newline>EXPERIENCE\<newline>cook'') = ''cook''"
  by (simp add: eval_rx eval_chr)

text \<open>
  C8, amended: for every text both results of \<open>extract_experience_and_skills\<close> have at
  most 500 characters. Where a segment of the split, followed by another, contains the
  token \<open>SKILLS\<close> or \<open>QUALIFICATIONS\<close> (whatever the case) and no segment before it
  does, the skills text is the segment that follows it, trimmed and cut to 500 characters,
  if that is not empty. If that is empty, or if no segment but the last contains the
  token, the skills text is the last segment, trimmed and cut to 500 characters, when the
  split has more than two segments, and it is empty when the split has one or two.
\<close>

theorem extract_experience_and_skills_sections:
  "length (fst (extract_experience_and_skills text K)) \<le> 500
   \<and> length (snd (extract_experience_and_skills text K)) \<le> 500
   \<and> (\<forall>pre a b post.
        re_split header_pattern text = pre @ a # b # post
        \<and> (\<forall>x \<in> set pre. \<not> contains_token x) \<and> contains_token a \<and> strip b \<noteq> [] \<longrightarrow>
        snd (extract_experience_and_skills text K) = take 500 (strip b))
   \<and> ((\<forall>x \<in> set (butlast (re_split header_pattern text)). \<not> contains_token x)
       \<or> (\<exists>pre a b post.
            re_split header_pattern text = pre @ a # b # post
            \<and> (\<forall>x \<in> set pre. \<not> contains_token x) \<and> contains_token a \<and> strip b = []) \<longrightarrow>
        snd (extract_experience_and_skills text K) =
          (if length (re_split header_pattern text) > 2
           then take 500 (strip (last (re_split header_pattern text))) else []))"
proof -
  let ?sections = "re_split header_pattern text"
  have found: "snd (extract_experience_and_skills text K) = take 500 (strip b)"
    if "?sections = pre @ a # b # post" "\<forall>x \<in> set pre. \<not> contains_token x"
      "contains_token a" "strip b \<noteq> []" for pre a b post
    using that skills_loop_first [of pre a b post] by (simp add: extract_skills)
  have fallback: "snd (extract_experience_and_skills text K) =
      (if length ?sections > 2 then take 500 (strip (last ?sections)) else [])"
    if "skills_loop ?sections = []"
    using that by (simp add: extract_skills)
  have none: "skills_loop ?sections = []"
    if "\<forall>x \<in> set (butlast ?sections). \<not> contains_token x"
    using that by (rule skills_loop_none)
  have blank: "skills_loop ?sections = []"
    if "?sections = pre @ a # b # post" "\<forall>x \<in> set pre. \<not> contains_token x"
      "contains_token a" "strip b = []" for pre a b post
    using that skills_loop_first [of pre a b post] by simp
  show ?thesis
    using extract_lengths [of "text" K] found fallback none blank by blast
qed

theorem extract_experience_and_skills_sections_witness:
  "snd (extract_experience_and_skills
      ''Ann\<newline>Summary: skills below\<newline>SKILLS\<newline> cooking \<newline>EDUCATION\<newline>school'' []) = ''cooking''
   \<and> snd (extract_experience_and_skills
      ''Ann\<newline>EXPERIENCE\<newline>cook\<newline>EDUCATION\<newline>school'' []) = ''school''
   \<and> length (fst (extract_experience_and_skills
      ''Ann\<newline>EXPERIENCE\<newline>cook\<newline>EDUCATION\<newline>school'' [])) \<le> 500"
proof -
  let ?t1 = "''Ann\<newline>Summary: skills below\<newline>SKILLS\<newline> cooking \<newline>EDUCATION\<newline>school''"
  let ?t2 = "''Ann\<newline>EXPERIENCE\<newline>cook\<newline>EDUCATION\<newline>school''"
  have s1: "re_split header_pattern ?t1 = [] @ ''Ann\<newline>Summary: skills below'' # ''cooking '' # [''school'']"
    by (simp add: eval_rx eval_chr)
  have s2: "re_split header_pattern ?t2 = [''Ann'', ''cook'', ''school'']"
    by (simp add: eval_rx eval_chr)
  have tok: "contains_token ''Ann\<newline>Summary: skills below''"
    by (simp add: eval_rx eval_chr)
  have st: "strip ''cooking '' = ''cooking''"
    by (simp add: eval_rx eval_chr)
  have no: "\<forall>x \<in> set (butlast (re_split header_pattern ?t2)). \<not> contains_token x"
    unfolding s2 by (simp add: eval_rx eval_chr)
  note a = extract_experience_and_skills_sections [of ?t1 "[]"]
  note b = extract_experience_and_skills_sections [of ?t2 "[]"]
  have "snd (extract_experience_and_skills ?t1 []) = take 500 (strip ''cooking '')"
    using a [THEN conjunct2, THEN conjunct2, THEN conjunct1] s1 tok st by fastforce
  then have c1: "snd (extract_experience_and_skills ?t1 []) = ''cooking''"
    unfolding st by simp
  have "snd (extract_experience_and_skills ?t2 []) =
      (if length (re_split header_pattern ?t2) > 2
       then take 500 (strip (last (re_split header_pattern ?t2))) else [])"
    using b [THEN conjunct2, THEN conjunct2, THEN conjunct2] no by blast
  then have c2: "snd (extract_experience_and_skills ?t2 []) = ''school''"
    unfolding s2 by (simp add: strip_def eval_chr)
  from c1 c2 b [THEN conjunct1] show ?thesis by blast
qed

section \<open>The scores of a batch\<close>

lemma process_resume_keyword_count:
  assumes "process_resume ex p K = Some r"
  shows "0 \<le> keyword_count r"
  using process_resume_Some(2) [OF assms]
  by (simp add: count_relevant_keywords_def count_loop_filter)

lemma monitor_input_folder_rows:
  assumes "r \<in> set (monitor_input_folder ex listing K)"
  shows "\<exists>p. process_resume ex p K = Some r"
  using assms by (auto simp add: monitor_input_folder_map_filter List.map_filter_def)

lemma truncate_keyword_count: "keyword_count (resume.truncate j) = keyword_count j"
  by (simp add: resume.defs)

text \<open>
  C5: \<open>calculate_priority\<close> is a function of the joined row alone. For every row whose
  \<open>keyword_count\<close> is not negative the score lies between 0 and
  \<open>2 + 5 + 4 + 3 + 4 = 18\<close>; and every row that \<open>classify_candidates\<close> returns for
  the records of \<open>monitor_input_folder\<close> is such a row, whatever the documents, the
  keywords and the survey are.
\<close>

theorem calculate_priority_bounds:
  "(0 \<le> keyword_count row \<longrightarrow> 0 \<le> calculate_priority row \<and> calculate_priority row \<le> 18)
   \<and> (\<forall>rows. classify_candidates (monitor_input_folder ex listing K) sv = Inr rows \<longrightarrow>
         (\<forall>c \<in> set rows. 0 \<le> priority_score c \<and> priority_score c \<le> 18))"
proof -
  have bounds: "0 \<le> calculate_priority j \<and> calculate_priority j \<le> 18"
    if k: "0 \<le> keyword_count j" for j :: "'b joined_row_scheme"
  proof -
    have r: "0 \<le> relevance_points (is_relevant j) \<and> relevance_points (is_relevant j) \<le> 2"
      by (simp add: relevance_points_def)
    have "0 \<le> keyword_points (keyword_count j) \<and> keyword_points (keyword_count j) \<le> 5"
      using k by (simp add: keyword_points_def)
    then show ?thesis
      unfolding calculate_priority_def
      using r availability_points_range [of "availability j"]
        courses_points_range [of "courses j"] visa_points_range [of "visa j"]
      by linarith
  qed
  have "0 \<le> priority_score c \<and> priority_score c \<le> 18"
    if out: "classify_candidates (monitor_input_folder ex listing K) sv = Inr rows"
      and mem: "c \<in> set rows" for rows c
  proof -
    obtain j where j: "c = classify_row j"
        "resume.truncate j \<in> set (monitor_input_folder ex listing K)"
      using classify_candidates_rows [OF out mem] by blast
    then have "0 \<le> keyword_count j"
      using monitor_input_folder_rows process_resume_keyword_count truncate_keyword_count
      by metis
    then show ?thesis using bounds [of j] j(1) by simp
  qed
  then show ?thesis using bounds by blast
qed

text \<open>The witness is a row that reaches 18, and a batch of one document.\<close>

theorem calculate_priority_bounds_witness:
  "0 \<le> keyword_count best_row \<and> calculate_priority best_row = 18
   \<and> (\<exists>rows. classify_candidates
          (monitor_input_folder (\<lambda>p. ''Cook and cashier'') [''a.pdf''] [''cook'', ''cashier''])
          None = Inr rows
        \<and> rows \<noteq> []
        \<and> list_all (\<lambda>c. 0 \<le> priority_score c \<and> priority_score c \<le> 18) rows)"
proof -
  let ?batch = "monitor_input_folder (\<lambda>p. ''Cook and cashier'') [''a.pdf''] [''cook'', ''cashier'']"
  note t = calculate_priority_bounds
    [of best_row "\<lambda>p. ''Cook and cashier''" "[''a.pdf'']" "[''cook'', ''cashier'']" None]
  have k: "0 \<le> keyword_count best_row"
    by (simp add: best_row_def)
  have "calculate_priority best_row \<ge> 18"
    by (simp add: best_row_def calculate_priority_def relevance_points_def keyword_points_def
        availability_points_def courses_points_def visa_points_def eval_chr)
  then have top: "calculate_priority best_row = 18"
    using t [THEN conjunct1] k by simp
  have "process_resume (\<lambda>p. ''Cook and cashier'') (os_path_join INPUT_DIR ''a.pdf'')
      [''cook'', ''cashier''] \<noteq> None"
    by (simp add: process_resume_None_iff)
  then have batch: "?batch \<noteq> []"
    by (auto simp add: monitor_input_folder_map_filter suffix_to_prefix eval_chr)
  have out: "classify_candidates ?batch None = Inr (map classify_row (unknown_rows ?batch))"
    by (simp add: classify_candidates_no_survey)
  have ne: "map classify_row (unknown_rows ?batch) \<noteq> []"
    using batch by (simp add: unknown_rows_def)
  have all: "list_all (\<lambda>c. 0 \<le> priority_score c \<and> priority_score c \<le> 18)
      (map classify_row (unknown_rows ?batch))"
    using t [THEN conjunct2, rule_format, OF out] by (simp only: list_all_iff) blast
  have "\<exists>rows. classify_candidates ?batch None = Inr rows \<and> rows \<noteq> []
      \<and> list_all (\<lambda>c. 0 \<le> priority_score c \<and> priority_score c \<le> 18) rows"
    by (rule exI [of _ "map classify_row (unknown_rows ?batch)"]) (intro conjI out ne all)
  with k top show ?thesis by (intro conjI)
qed

section \<open>Sample runs\<close>

text \<open>
  The patterns on sample texts. The phone pattern starts at a word boundary, so a number
  written with a plus sign and an opening bracket is found from its first digit on; the
  colon after a header stays in the segment that follows, since the pattern's last group
  tries its whitespace branch first and that branch always matches.
\<close>

lemmas eval_contact = re_search_def email_pattern_def phone_pattern_def email_local_chr_def
  email_domain_chr_def tld_chr_def phone_sep_chr_def at_boundary_def is_word_def

lemma email_pattern_sample:
  "re_search email_pattern ''Mail: a.b@x.co.uk, now'' = Some ''a.b@x.co.uk''"
  by (simp add: eval_contact eval_chr)

lemma phone_pattern_sample:
  "re_search phone_pattern ''call +353 (555) 123.4567 ok'' = Some ''555) 123.4567''"
  by (simp add: eval_contact eval_chr)

lemma header_pattern_sample:
  "re_split header_pattern ''Ann\<newline>Skills: fast\<newline>  work history\<newline>shop''
     = [''Ann'', '': fast'', ''shop'']"
  by (simp add: eval_rx eval_chr)

text \<open>
  The sample record with its two survey rows: \<open>2 + 3 + 4 + 3 + 4 = 16\<close> with the first
  and \<open>2 + 3 + 1 + 0 + 1 = 7\<close> with the second.
\<close>

lemma sample_resume_with_survey:
  "map_sum id (map (\<lambda>c. (priority_score c, priority c)))
     (classify_candidates [sample_resume] (Some own_survey))
     = Inr [(16, ''High''), (7, ''Medium'')]"
  by (simp add: eval_classify sample_resume_def own_survey_def eval_chr)

text \<open>
  The same record without a partner in a survey that has rows: its survey cells are
  missing and add nothing, \<open>2 + 3 + 0 + 0 + 0 = 5\<close>, one less than with no survey at all.
\<close>

lemma sample_resume_unmatched:
  "map_sum id (map (\<lambda>c. (priority_score c, priority c)))
     (classify_candidates [sample_resume] (Some other_survey))
     = Inr [(5, ''Low'')]"
  by (simp add: eval_classify sample_resume_def other_survey_def eval_chr)

text \<open>
  A survey with rows and no text in its email column stops the run, whatever the records
  are, as long as there is one.
\<close>

lemma classify_candidates_blank_key:
  "resumes \<noteq> [] \<Longrightarrow> classify_candidates resumes (Some blank_key_survey) = Inl ValueError"
  by (rule classify_candidates_raises) (simp_all add: blank_key_survey_def)

end
